theory Spec2Isabelle
  imports Main "HOL-Library.Sublist"
begin

section \<open>The Privacy Protection Module runner (src/ppm.cpp)\<close>

text \<open>
  A shallow embedding of the class \<open>PPM\<close> of \<open>src/ppm.cpp\<close>: the members of the object and
  the two static flags are one record, every member function takes the record and returns
  it updated, an exception is a value, and what the broker, the handler, the file system
  and the command line answer is an argument of the function that asks.
\<close>

subsection \<open>Text of numbers\<close>

text \<open>\<open>std::to_string\<close> on the unsigned counters and on the signed 64-bit offsets.\<close>

definition digit_char :: "nat \<Rightarrow> char" where
  "digit_char d = char_of (48 + d)"

function to_string :: "nat \<Rightarrow> string" where
  "to_string n = (if n < 10 then [digit_char n] else to_string (n div 10) @ [digit_char (n mod 10)])"
  by pat_completeness auto
termination
  by (relation "measure (\<lambda>n. n)") auto

declare to_string.simps [simp del]

definition to_string_int :: "int \<Rightarrow> string" where
  "to_string_int i = (if i < 0 then CHR ''-'' # to_string (nat (- i)) else to_string (nat i))"

subsection \<open>The broker client's values\<close>

text \<open>
  \<open>RdKafka::ErrorCode\<close>: the five codes \<open>ppm.cpp\<close> names, and \<open>ERR_OTHER c\<close> for every
  other code \<open>c\<close> of the library (the \<open>default\<close> branch of \<open>msg_consume\<close>).
\<close>

datatype ErrorCode =
    ERR_NO_ERROR
  | ERR__TIMED_OUT
  | ERR__PARTITION_EOF
  | ERR__UNKNOWN_TOPIC
  | ERR__UNKNOWN_PARTITION
  | ERR_OTHER int

datatype MessageTimestampType =
    MSG_TIMESTAMP_NOT_AVAILABLE
  | MSG_TIMESTAMP_CREATE_TIME
  | MSG_TIMESTAMP_LOG_APPEND_TIME
  | MSG_TIMESTAMP_OTHER

text \<open>
  \<open>RdKafka::Message\<close>, by its accessors. \<open>len()\<close> is the number of bytes of the payload, so
  the \<open>std::string payload(message->payload(), message->len())\<close> of line 476 is the field
  \<open>payload\<close> itself.
\<close>

record Message =
  err :: ErrorCode
  payload :: string
  errstr :: string
  offset_of :: int
  timestamp_type :: MessageTimestampType
  timestamp :: int
  key :: "string option"

definition len :: "Message \<Rightarrow> nat" where
  "len message = length (payload message)"

text \<open>
  \<open>BSMHandler\<close> is not part of \<open>ppm.cpp\<close>; the runner sees it through five calls. The record
  holds what the handler answers for the message of one iteration.
\<close>

record BSMHandler =
  process :: "string \<Rightarrow> bool"
  get_result_string :: string
  get_bsm_logString :: string
  get_json :: string
  get_bsm_buffer_size :: nat

subsection \<open>The logger\<close>

text \<open>
  \<open>spdlog::level\<close>. The log of the model is the list of the calls made on \<open>logger\<close>, each
  with the method that was called (\<open>trace\<close>, \<open>info\<close>, \<open>warn\<close>, \<open>error\<close> as \<open>err_level\<close>,
  \<open>critical\<close>) and the text; which sink writes a call out is \<open>PpmLogger\<close>'s business.
\<close>

datatype level_enum = trace | debug | info | warn | err_level | critical | off

type_synonym log_line = "level_enum \<times> string"

subsection \<open>The object\<close>

text \<open>
  Modelled from the spec: the types of the members are declared in \<open>ppm.hpp\<close>, which is
  not among the sources. The spec calls the six counters monotonic counts, so they are
  natural numbers; the EOF and partition counts, the partition and the offset are integers.
  \<open>conf\<close> and \<open>tconf\<close> are the tables of the settings the broker client accepted;
  \<open>consumer\<close>, \<open>producer\<close> and \<open>filtered_topic\<close> hold the name of the handle, \<open>None\<close> for
  the empty pointer. The members \<open>brokers\<close>, \<open>mode\<close>, \<open>debug\<close> and \<open>raw_topic\<close> are never
  read or written after the constructor and are left out. \<open>bootstrap\<close> and
  \<open>bsms_available\<close> are the two static flags. \<open>log\<close>, \<open>cerr\<close> and \<open>produced\<close> are what the
  run leaves outside the object: the logger calls, the lines on standard error, and the
  messages the producer accepted (topic handle, partition, text handed over, size handed
  over).
\<close>

record 'q ppm =
  exit_eof :: bool
  eof_cnt :: int
  partition_cnt :: int
  bsm_recv_count :: nat
  bsm_send_count :: nat
  bsm_filt_count :: nat
  bsm_recv_bytes :: nat
  bsm_send_bytes :: nat
  bsm_filt_bytes :: nat
  pconf :: "string \<rightharpoonup> string"
  partition :: int
  offset :: int
  published_topic :: string
  consumed_topic :: string
  conf :: "string \<rightharpoonup> string"
  tconf :: "string \<rightharpoonup> string"
  qptr :: "'q option"
  consumer :: "string option"
  consumer_timeout :: int
  producer :: "string option"
  filtered_topic :: "string option"
  bootstrap :: bool
  bsms_available :: bool
  info_level :: level_enum
  log :: "log_line list"
  cerr :: "string list"
  produced :: "(string option \<times> int \<times> string \<times> nat) list"

text \<open>The values of \<open>RdKafka::Topic\<close> that the constructor and \<open>configure\<close> use.\<close>

definition PARTITION_UA :: int where "PARTITION_UA = - 1"
definition OFFSET_BEGINNING :: int where "OFFSET_BEGINNING = - 2"
definition OFFSET_END :: int where "OFFSET_END = - 1"
definition OFFSET_STORED :: int where "OFFSET_STORED = - 1000"

text \<open>
  The constructor (lines 85 to 113) with the initial values of the statics (lines 77, 78).
  The logger is made by \<open>make_loggers\<close> before the runner starts; \<open>lvl\<close> is the level it
  starts with.
\<close>

definition PPM :: "level_enum \<Rightarrow> 'q ppm" where
  "PPM lvl = \<lparr> exit_eof = True, eof_cnt = 0, partition_cnt = 1,
      bsm_recv_count = 0, bsm_send_count = 0, bsm_filt_count = 0,
      bsm_recv_bytes = 0, bsm_send_bytes = 0, bsm_filt_bytes = 0,
      pconf = Map.empty, partition = PARTITION_UA, offset = OFFSET_BEGINNING,
      published_topic = [], consumed_topic = [],
      conf = Map.empty, tconf = Map.empty, qptr = None,
      consumer = None, consumer_timeout = 500, producer = None, filtered_topic = None,
      bootstrap = True, bsms_available = True,
      info_level = lvl, log = [], cerr = [], produced = [] \<rparr>"

definition logger_trace :: "string \<Rightarrow> 'q ppm \<Rightarrow> 'q ppm" where
  "logger_trace text s = s\<lparr>log := log s @ [(trace, text)]\<rparr>"

definition logger_info :: "string \<Rightarrow> 'q ppm \<Rightarrow> 'q ppm" where
  "logger_info text s = s\<lparr>log := log s @ [(info, text)]\<rparr>"

definition logger_warn :: "string \<Rightarrow> 'q ppm \<Rightarrow> 'q ppm" where
  "logger_warn text s = s\<lparr>log := log s @ [(warn, text)]\<rparr>"

definition logger_error :: "string \<Rightarrow> 'q ppm \<Rightarrow> 'q ppm" where
  "logger_error text s = s\<lparr>log := log s @ [(err_level, text)]\<rparr>"

definition logger_critical :: "string \<Rightarrow> 'q ppm \<Rightarrow> 'q ppm" where
  "logger_critical text s = s\<lparr>log := log s @ [(critical, text)]\<rparr>"

definition set_info_level :: "level_enum \<Rightarrow> 'q ppm \<Rightarrow> 'q ppm" where
  "set_info_level lvl s = s\<lparr>info_level := lvl\<rparr>"

subsection \<open>The signal handler (lines 80 to 83)\<close>

definition sigterm :: "'q ppm \<Rightarrow> 'q ppm" where
  "sigterm s = s\<lparr>bsms_available := False, bootstrap := False\<rparr>"

text \<open>
  SIGINT and SIGTERM arrive at any time. The runner reads the flags only at the tests of
  its loops, so the model delivers a signal at the places between two such reads that
  differ in effect: each is a boolean of the surroundings, and \<open>deliver\<close> runs the handler
  when it is set.
\<close>

definition deliver :: "bool \<Rightarrow> 'q ppm \<Rightarrow> 'q ppm" where
  "deliver sig s = (if sig then sigterm s else s)"

subsection \<open>\<open>msg_consume\<close> (lines 470 to 552)\<close>

definition tsname :: "MessageTimestampType \<Rightarrow> string" where
  "tsname t = (if t = MSG_TIMESTAMP_CREATE_TIME then ''create time''
               else if t = MSG_TIMESTAMP_LOG_APPEND_TIME then ''log append time''
               else ''unknown'')"

definition log_timestamp :: "Message \<Rightarrow> 'q ppm \<Rightarrow> 'q ppm" where
  "log_timestamp message s =
     (if timestamp_type message \<noteq> MSG_TIMESTAMP_NOT_AVAILABLE
      then logger_trace (''Message timestamp: '' @ tsname (timestamp_type message)
             @ '', type: '' @ to_string_int (timestamp message)) s
      else s)"

definition log_key :: "Message \<Rightarrow> 'q ppm \<Rightarrow> 'q ppm" where
  "log_key message s =
     (case key message of Some k \<Rightarrow> logger_trace (''Message key: '' @ k) s | None \<Rightarrow> s)"

definition msg_consume :: "'q ppm \<Rightarrow> Message \<Rightarrow> BSMHandler \<Rightarrow> bool \<times> 'q ppm" where
  "msg_consume s message handler =
     (case err message of
        ERR__TIMED_OUT \<Rightarrow>
          (False, logger_info ''Waiting for more BSMs from the ODE producer.'' s)
      | ERR_NO_ERROR \<Rightarrow>
          (let s1 = s\<lparr>bsm_recv_count := bsm_recv_count s + 1\<rparr>;
               s2 = s1\<lparr>bsm_recv_bytes := bsm_recv_bytes s1 + len message\<rparr>;
               s3 = logger_trace (''Read message at byte offset: ''
                      @ to_string_int (offset_of message)) s2;
               s4 = log_timestamp message s3;
               s5 = log_key message s4
           in if process handler (payload message)
              then (True, logger_info (''BSM [RETAINED]: '' @ get_bsm_logString handler) s5)
              else (let s6 = logger_info (''BSM [SUPPRESSED-'' @ get_result_string handler
                               @ '']: '' @ get_bsm_logString handler) s5;
                        s7 = s6\<lparr>bsm_filt_count := bsm_filt_count s6 + 1\<rparr>
                    in (False, s7\<lparr>bsm_filt_bytes := bsm_filt_bytes s7 + len message\<rparr>)))
      | ERR__PARTITION_EOF \<Rightarrow>
          (let s1 = logger_info
                      ''ODE BSM consumer partition end of file, but PPM still alive.'' s
           in if exit_eof s1
              then (let s2 = s1\<lparr>eof_cnt := eof_cnt s1 + 1\<rparr>
                    in if eof_cnt s2 = partition_cnt s2
                       then (False, (logger_info (''EOF reached for all ''
                               @ to_string_int (partition_cnt s2) @ '' partition(s)'') s2)
                               \<lparr>bsms_available := False\<rparr>)
                       else (False, s2))
              else (False, s1))
      | ERR__UNKNOWN_TOPIC \<Rightarrow>
          (False, (logger_error (''cannot consume due to an UNKNOWN consumer topic: ''
                     @ errstr message) s)\<lparr>bsms_available := False\<rparr>)
      | ERR__UNKNOWN_PARTITION \<Rightarrow>
          (False, (logger_error (''cannot consume due to an UNKNOWN consumer partition: ''
                     @ errstr message) s)\<lparr>bsms_available := False\<rparr>)
      | ERR_OTHER c \<Rightarrow>
          (False, (logger_error (''cannot consume due to an error: '' @ errstr message) s)
                    \<lparr>bsms_available := False\<rparr>))"

subsection \<open>What the runner asks of its surroundings\<close>

text \<open>
  C++ exceptions that can leave \<open>configure\<close>; \<open>what\<close> is the text of \<open>e.what()\<close>.
  A call ends in one of three ways: it returns a value, an exception leaves it, or it runs
  into what C++ leaves undefined, after which nothing is known of the process.
\<close>

datatype exn = invalid_argument string | out_of_range string | runtime_error string

fun what :: "exn \<Rightarrow> string" where
  "what (invalid_argument w) = w"
| "what (out_of_range w) = w"
| "what (runtime_error w) = w"

datatype 'a result = Returns 'a | Throws exn | Undefined_behaviour

datatype ConfType = CONF_GLOBAL | CONF_TOPIC

text \<open>
  The parts of the program and of its libraries that are not in \<open>ppm.cpp\<close> are taken as
  parameters, one field each, under the name the source calls them by:
  the command line of the base class \<open>Tool\<close> (\<open>optIsSet\<close>, which is also
  \<open>getOption(c).isSet()\<close>, \<open>optString\<close>, \<open>optInt\<close>); the lines of a file, \<open>None\<close> when it
  cannot be opened; \<open>string_utilities::strip\<close> and \<open>split\<close>; \<open>RdKafka::Conf::set\<close>, which
  answers \<open>None\<close> for \<open>CONF_OK\<close> and the error text otherwise; \<open>getenv\<close>;
  \<open>RdKafka::err2str\<close>; \<open>std::stod\<close>; and the geometry: the constructor of \<open>Quad\<close> from its
  two corners (a coordinate that was never assigned is \<open>None\<close>), the three lists of shapes
  \<open>CSVInputFactory\<close> reads from the map file (circles, edges, grids), and \<open>Quad::insert\<close>.
  \<open>'d\<close> stands for \<open>double\<close>, \<open>'e\<close> for a shape, \<open>'q\<close> for the quad.
\<close>

record ('d, 'e, 'q) env =
  optIsSet :: "char \<Rightarrow> bool"
  optString :: "char \<Rightarrow> string"
  optInt :: "char \<Rightarrow> int result"
  ifstream_lines :: "string \<Rightarrow> string list option"
  string_utilities_strip :: "string \<Rightarrow> string"
  string_utilities_split :: "string \<Rightarrow> char \<Rightarrow> string list"
  Conf_set :: "ConfType \<Rightarrow> string \<Rightarrow> string \<Rightarrow> string option"
  getenv :: "string \<Rightarrow> string option"
  err2str :: "ErrorCode \<Rightarrow> string"
  stod :: "string \<Rightarrow> 'd result"
  make_Quad :: "'d option \<times> 'd option \<Rightarrow> 'd option \<times> 'd option \<Rightarrow> 'q"
  make_shapes :: "string \<Rightarrow> ('e list \<times> 'e list \<times> 'e list) result"
  Quad_insert :: "'q \<Rightarrow> 'e \<Rightarrow> 'q"

subsection \<open>The consume-produce loop (lines 817 to 837)\<close>

text \<open>
  One pass of the loop body is given what the surroundings do during it: the message
  \<open>consumer->consume\<close> returns, the handler's answers for it, the status
  \<open>producer->produce\<close> returns if it is called, and whether SIGINT or SIGTERM is delivered
  during the pass. The body never reads the two flags and writes nothing but \<open>false\<close> to
  \<open>bsms_available\<close>, so a signal at any point of the body leaves the same state as one at
  its end, which is where the model delivers it. \<open>logger->flush()\<close> adds no call
  with a text and is not recorded.
\<close>

record iteration =
  consumed :: Message
  handler :: BSMHandler
  produce_status :: ErrorCode
  signal :: bool

definition produce_retained ::
  "('d, 'e, 'q) env \<Rightarrow> 'q ppm \<Rightarrow> iteration \<Rightarrow> 'q ppm" where
  "produce_retained E s it =
     (let status = produce_status it
      in if status \<noteq> ERR_NO_ERROR
         then logger_error (''failed to produce retained BSM because: '' @ err2str E status) s
         else (let s1 = s\<lparr>produced := produced s @ [(filtered_topic s, partition s,
                          get_json (handler it), get_bsm_buffer_size (handler it))]\<rparr>;
                   s2 = s1\<lparr>bsm_send_count := bsm_send_count s1 + 1\<rparr>;
                   s3 = s2\<lparr>bsm_send_bytes := bsm_send_bytes s2 + len (consumed it)\<rparr>
               in logger_trace ''produced BSM successfully.'' s3))"

definition consume_produce_iteration ::
  "('d, 'e, 'q) env \<Rightarrow> 'q ppm \<Rightarrow> iteration \<Rightarrow> 'q ppm" where
  "consume_produce_iteration E s it =
     (let (retained, s1) = msg_consume s (consumed it) (handler it);
          s2 = (if retained then produce_retained E s1 it else s1)
      in deliver (signal it) s2)"

text \<open>
  \<open>while (bsms_available) { ... }\<close> over the passes the surroundings supply.
  \<open>consume_produce_run\<close> is the state when the loop has ended or the supplied passes are
  used up, whichever comes first; \<open>consume_produce_loop\<close> is \<open>None\<close> when the passes are
  used up and the loop is still running.
\<close>

fun consume_produce_run ::
  "('d, 'e, 'q) env \<Rightarrow> 'q ppm \<Rightarrow> iteration list \<Rightarrow> 'q ppm" where
  "consume_produce_run E s [] = s"
| "consume_produce_run E s (it # its) =
     (if bsms_available s then consume_produce_run E (consume_produce_iteration E s it) its
      else s)"

definition consume_produce_loop ::
  "('d, 'e, 'q) env \<Rightarrow> 'q ppm \<Rightarrow> iteration list \<Rightarrow> 'q ppm option" where
  "consume_produce_loop E s its =
     (let s' = consume_produce_run E s its
      in if bsms_available s' then None else Some s')"

text \<open>
  The count the conservation law speaks of: the passes of a run of the loop in which the
  message was retained (\<open>msg_consume\<close> returned true) and \<open>produce\<close> returned an error.
\<close>

definition produce_failed :: "'q ppm \<Rightarrow> iteration \<Rightarrow> bool" where
  "produce_failed s it =
     (fst (msg_consume s (consumed it) (handler it)) \<and> produce_status it \<noteq> ERR_NO_ERROR)"

fun produce_errors ::
  "('d, 'e, 'q) env \<Rightarrow> 'q ppm \<Rightarrow> iteration list \<Rightarrow> nat" where
  "produce_errors E s [] = 0"
| "produce_errors E s (it # its) =
     (if bsms_available s
      then (if produce_failed s it then 1 else 0)
           + produce_errors E (consume_produce_iteration E s it) its
      else 0)"

subsection \<open>Reading numbers: \<open>std::stoi\<close> and \<open>strtoll\<close>\<close>

text \<open>
  Both skip leading white space, take an optional sign and then the longest run of decimal
  digits. \<open>stoi\<close> throws \<open>std::invalid_argument\<close> when there is no digit and
  \<open>std::out_of_range\<close> when the value does not fit a 32-bit \<open>int\<close>; \<open>strtoll\<close> throws
  nothing: it returns 0 when there is no digit and the nearest 64-bit bound when the value
  does not fit.
\<close>

definition isspace :: "char \<Rightarrow> bool" where
  "isspace c = (c = CHR '' '' \<or> (9 \<le> (of_char c :: nat) \<and> (of_char c :: nat) \<le> 13))"

definition isdigit :: "char \<Rightarrow> bool" where
  "isdigit c = (48 \<le> (of_char c :: nat) \<and> (of_char c :: nat) \<le> 57)"

definition digits_value :: "string \<Rightarrow> nat" where
  "digits_value ds = foldl (\<lambda>a c. 10 * a + (of_char c - 48)) 0 ds"

definition parse_integer :: "string \<Rightarrow> int option" where
  "parse_integer str =
     (let s1 = dropWhile isspace str;
          negative = (s1 \<noteq> [] \<and> hd s1 = CHR ''-'');
          s2 = (if s1 \<noteq> [] \<and> (hd s1 = CHR ''-'' \<or> hd s1 = CHR ''+'') then tl s1 else s1);
          ds = takeWhile isdigit s2
      in if ds = [] then None
         else Some (if negative then - int (digits_value ds) else int (digits_value ds)))"

definition stoi :: "string \<Rightarrow> int result" where
  "stoi str =
     (case parse_integer str of
        None \<Rightarrow> Throws (invalid_argument ''stoi'')
      | Some v \<Rightarrow> if v < - (2 ^ 31) \<or> 2 ^ 31 - 1 < v then Throws (out_of_range ''stoi'')
                  else Returns v)"

definition strtoll :: "string \<Rightarrow> int" where
  "strtoll str =
     (case parse_integer str of
        None \<Rightarrow> 0
      | Some v \<Rightarrow> max (- (2 ^ 63)) (min (2 ^ 63 - 1) v))"

subsection \<open>\<open>getEnvironmentVariable\<close> (lines 847 to 854)\<close>

definition getEnvironmentVariable ::
  "('d, 'e, 'q) env \<Rightarrow> string \<Rightarrow> 'q ppm \<Rightarrow> string \<times> 'q ppm" where
  "getEnvironmentVariable E variableName s =
     (case getenv E variableName of
        None \<Rightarrow> ([], logger_error
                   (''Something went wrong attempting to retrieve the environment variable ''
                    @ variableName) s)
      | Some toReturn \<Rightarrow> (toReturn, s))"

subsection \<open>\<open>BuildGeofence\<close> (lines 554 to 602)\<close>

definition stod_setting ::
  "('d, 'e, 'q) env \<Rightarrow> 'q ppm \<Rightarrow> string \<Rightarrow> 'd option result" where
  "stod_setting E s k =
     (case pconf s k of
        None \<Rightarrow> Returns None
      | Some v \<Rightarrow> (case stod E v of
                     Returns d \<Rightarrow> Returns (Some d)
                   | Throws e \<Rightarrow> Throws e
                   | Undefined_behaviour \<Rightarrow> Undefined_behaviour))"

definition BuildGeofence ::
  "('d, 'e, 'q) env \<Rightarrow> 'q ppm \<Rightarrow> string \<Rightarrow> 'q result \<times> 'q ppm" where
  "BuildGeofence E s mapfile =
     (let s1 = logger_trace ''Starting BuildGeofence.'' s
      in case stod_setting E s1 ''privacy.filter.geofence.sw.lat'' of
           Throws e \<Rightarrow> (Throws e, s1)
         | Undefined_behaviour \<Rightarrow> (Undefined_behaviour, s1)
         | Returns sw_lat \<Rightarrow>
      (case stod_setting E s1 ''privacy.filter.geofence.sw.lon'' of
           Throws e \<Rightarrow> (Throws e, s1)
         | Undefined_behaviour \<Rightarrow> (Undefined_behaviour, s1)
         | Returns sw_lon \<Rightarrow>
      (case stod_setting E s1 ''privacy.filter.geofence.ne.lat'' of
           Throws e \<Rightarrow> (Throws e, s1)
         | Undefined_behaviour \<Rightarrow> (Undefined_behaviour, s1)
         | Returns ne_lat \<Rightarrow>
      (case stod_setting E s1 ''privacy.filter.geofence.ne.lon'' of
           Throws e \<Rightarrow> (Throws e, s1)
         | Undefined_behaviour \<Rightarrow> (Undefined_behaviour, s1)
         | Returns ne_lon \<Rightarrow>
      (let q0 = make_Quad E (sw_lat, sw_lon) (ne_lat, ne_lon)
       in case make_shapes E mapfile of
            Throws e \<Rightarrow> (Throws e, s1)
          | Undefined_behaviour \<Rightarrow> (Undefined_behaviour, s1)
          | Returns (circles, edges, grids) \<Rightarrow>
              (let q1 = foldl (Quad_insert E) q0 circles;
                   q2 = foldl (Quad_insert E) q1 edges;
                   q3 = foldl (Quad_insert E) q2 grids
               in (Returns q3, logger_trace ''Completed BuildGeofence.'' s1)))))))"

subsection \<open>\<open>configure\<close> (lines 245 to 468)\<close>

text \<open>
  The body of \<open>configure\<close> is a sequence of blocks; each either falls through to the next
  (\<open>Continue\<close>), returns from \<open>configure\<close> (\<open>Return\<close>), is left by an exception
  (\<open>Throw\<close>), or runs into undefined behaviour (\<open>Undefined_step\<close>), where the sequence
  stops because nothing is known of what follows. Each block below is one definition, in
  the order of the source.
\<close>

datatype step = Continue | Return bool | Throw exn | Undefined_step

fun run_steps :: "('s \<Rightarrow> step \<times> 's) list \<Rightarrow> 's \<Rightarrow> step \<times> 's" where
  "run_steps [] s = (Continue, s)"
| "run_steps (f # fs) s =
     (case f s of (Continue, s') \<Rightarrow> run_steps fs s' | (r, s') \<Rightarrow> (r, s'))"

text \<open>\<open>conf->set(k, v, error_string)\<close>: the error text when the client refuses.\<close>

definition conf_set ::
  "('d, 'e, 'q) env \<Rightarrow> string \<Rightarrow> string \<Rightarrow> 'q ppm \<Rightarrow> string option \<times> 'q ppm" where
  "conf_set E k v s =
     (case Conf_set E CONF_GLOBAL k v of
        None \<Rightarrow> (None, s\<lparr>conf := (conf s)(k \<mapsto> v)\<rparr>)
      | Some error_string \<Rightarrow> (Some error_string, s))"

definition tconf_set ::
  "('d, 'e, 'q) env \<Rightarrow> string \<Rightarrow> string \<Rightarrow> 'q ppm \<Rightarrow> string option \<times> 'q ppm" where
  "tconf_set E k v s =
     (case Conf_set E CONF_TOPIC k v of
        None \<Rightarrow> (None, s\<lparr>tconf := (tconf s)(k \<mapsto> v)\<rparr>)
      | Some error_string \<Rightarrow> (Some error_string, s))"

text \<open>Lines 247 to 265.\<close>

definition configure_log_level :: "('d, 'e, 'q) env \<Rightarrow> 'q ppm \<Rightarrow> step \<times> 'q ppm" where
  "configure_log_level E s =
     (Continue,
      if optIsSet E CHR ''v'' then
        (if ''trace'' = optString E CHR ''v'' then set_info_level trace s
         else if ''debug'' = optString E CHR ''v'' then set_info_level trace s
         else if ''info'' = optString E CHR ''v'' then set_info_level trace s
         else if ''warning'' = optString E CHR ''v'' then set_info_level warn s
         else if ''error'' = optString E CHR ''v'' then set_info_level err_level s
         else if ''critical'' = optString E CHR ''v'' then set_info_level critical s
         else if ''off'' = optString E CHR ''v'' then set_info_level off s
         else logger_warn
                ''information logger level was configured but unreadable; using default.'' s)
      else s)"

text \<open>
  Lines 292 to 324, one line of the file. The two calls of \<open>strip\<close> on the pieces (lines 299
  and 300) strip them where they are, as the comment of line 298 says they do: the key
  and the value are the stripped pieces.
\<close>

definition read_config_line :: "('d, 'e, 'q) env \<Rightarrow> 'q ppm \<Rightarrow> string \<Rightarrow> 'q ppm" where
  "read_config_line E s line0 =
     (let line = string_utilities_strip E line0
      in if line \<noteq> [] \<and> hd line \<noteq> CHR ''#'' then
           (let pieces = string_utilities_split E line CHR ''=''
            in if length pieces = 2 then
                 (let p0 = string_utilities_strip E (pieces ! 0);
                      p1 = string_utilities_strip E (pieces ! 1);
                      (r1, s1) = tconf_set E p0 p1 s;
                      s2 = (if r1 = None
                            then logger_info (''kafka topic configuration: '' @ p0 @ '' = '' @ p1) s1
                            else s1);
                      (r2, s3) = conf_set E p0 p1 s2;
                      s4 = (if r2 = None
                            then logger_info (''kafka configuration: '' @ p0 @ '' = '' @ p1) s3
                            else s3);
                      done = (r1 = None \<or> r2 = None)
                  in if \<not> done
                     then (logger_info (''ppm configuration: '' @ p0 @ '' = '' @ p1) s4)
                            \<lparr>pconf := (pconf s4)(p0 \<mapsto> p1)\<rparr>
                     else s4)
               else logger_warn (''too many pieces in the configuration file line: '' @ line) s)
         else s)"

text \<open>Lines 267 to 324.\<close>

definition configure_file :: "('d, 'e, 'q) env \<Rightarrow> 'q ppm \<Rightarrow> step \<times> 'q ppm" where
  "configure_file E s =
     (let s1 = logger_trace ''starting configure()'' s;
          s2 = s1\<lparr>conf := Map.empty, tconf := Map.empty\<rparr>
      in if \<not> optIsSet E CHR ''c''
         then (Return False,
               logger_error ''asked to use a configuration file, but option not set.'' s2)
         else (let cfile = optString E CHR ''c'';
                   s3 = logger_info (''using configuration file: '' @ cfile) s2
               in case ifstream_lines E cfile of
                    None \<Rightarrow> (Return False,
                             logger_error (''cannot open configuration file: '' @ cfile) s3)
                  | Some lines \<Rightarrow> (Continue, foldl (read_config_line E) s3 lines)))"

text \<open>Lines 328 to 347.\<close>

definition configure_mapfile :: "('d, 'e, 'q) env \<Rightarrow> 'q ppm \<Rightarrow> step \<times> 'q ppm" where
  "configure_mapfile E s =
     (case (if optIsSet E CHR ''m'' then Some (optString E CHR ''m'')
            else pconf s ''privacy.filter.geofence.mapfile'') of
        None \<Rightarrow> (Return False, logger_error ''no map file specified; must fail.'' s)
      | Some mapfile \<Rightarrow>
          (case BuildGeofence E (logger_info (''ppm mapfile: '' @ mapfile) s) mapfile of
             (Throws e, s1) \<Rightarrow> (Throw e, s1)
           | (Undefined_behaviour, s1) \<Rightarrow> (Undefined_step, s1)
           | (Returns q, s1) \<Rightarrow> (Continue, s1\<lparr>qptr := Some q\<rparr>)))"

text \<open>Lines 349 to 353.\<close>

definition configure_broker :: "('d, 'e, 'q) env \<Rightarrow> 'q ppm \<Rightarrow> step \<times> 'q ppm" where
  "configure_broker E s =
     (if optIsSet E CHR ''b''
      then (Continue, snd (conf_set E ''metadata.broker.list'' (optString E CHR ''b'')
                            (logger_info (''setting kafka broker to: '' @ optString E CHR ''b'') s)))
      else (Continue, s))"

text \<open>
  Lines 355 to 366; \<open>partition_setting\<close> is lines 355 to 364. Line 366 adds the integer \<open>partition\<close> to the address of the string
  literal and hands the result to the logger as a C string. With the partition between 0
  and the length of the literal, 17, that is the literal from that position on; with any
  other partition, the default \<open>PARTITION_UA\<close> among them, the address is outside the
  literal and the behaviour is undefined: \<open>literal_plus\<close> is \<open>None\<close> there, and the
  block ends in \<open>Undefined_step\<close>.
\<close>

definition literal_plus :: "string \<Rightarrow> int \<Rightarrow> string option" where
  "literal_plus lit n =
     (if 0 \<le> n \<and> n \<le> int (length lit) then Some (drop (nat n) lit) else None)"

definition partition_setting :: "('d, 'e, 'q) env \<Rightarrow> 'q ppm \<Rightarrow> 'q ppm result" where
  "partition_setting E s =
     (if optIsSet E CHR ''p'' then
        (case optInt E CHR ''p'' of
           Returns n \<Rightarrow> Returns (s\<lparr>partition := n\<rparr>)
         | Throws e \<Rightarrow> Throws e
         | Undefined_behaviour \<Rightarrow> Undefined_behaviour)
      else
        (case pconf s ''privacy.kafka.partition'' of
           Some v \<Rightarrow> (case stoi v of
                        Returns n \<Rightarrow> Returns (s\<lparr>partition := n\<rparr>)
                      | Throws e \<Rightarrow> Throws e
                      | Undefined_behaviour \<Rightarrow> Undefined_behaviour)
         | None \<Rightarrow> Returns s))"

definition configure_partition :: "('d, 'e, 'q) env \<Rightarrow> 'q ppm \<Rightarrow> step \<times> 'q ppm" where
  "configure_partition E s =
     (case partition_setting E s of
        Throws e \<Rightarrow> (Throw e, s)
      | Undefined_behaviour \<Rightarrow> (Undefined_step, s)
      | Returns s1 \<Rightarrow>
          (case literal_plus ''kafka partition: '' (partition s1) of
             Some line \<Rightarrow> (Continue, logger_info line s1)
           | None \<Rightarrow> (Undefined_step, s1)))"

text \<open>Lines 368 to 391; the local \<open>debug\<close> is false, so line 388 never runs.\<close>

definition configure_confluent :: "('d, 'e, 'q) env \<Rightarrow> 'q ppm \<Rightarrow> step \<times> 'q ppm" where
  "configure_confluent E s =
     (let (kafkaType, s1) = getEnvironmentVariable E ''KAFKA_TYPE'' s
      in if kafkaType = ''CONFLUENT'' then
           (let (username, s2) = getEnvironmentVariable E ''CONFLUENT_KEY'' s1;
                (password, s3) = getEnvironmentVariable E ''CONFLUENT_SECRET'' s2;
                (host, s4) = getEnvironmentVariable E ''DOCKER_HOST_IP'' s3;
                s5 = snd (conf_set E ''bootstrap.servers'' host s4);
                s6 = snd (conf_set E ''security.protocol'' ''SASL_SSL'' s5);
                s7 = snd (conf_set E ''sasl.mechanisms'' ''PLAIN'' s6);
                s8 = snd (conf_set E ''sasl.username'' username s7);
                s9 = snd (conf_set E ''sasl.password'' password s8);
                s10 = snd (conf_set E ''api.version.request'' ''true'' s9);
                s11 = snd (conf_set E ''api.version.fallback.ms'' ''0'' s10);
                s12 = snd (conf_set E ''broker.version.fallback'' ''0.10.0.0'' s11)
            in (Continue, s12))
         else (Continue, s1))"

text \<open>Lines 393 to 397.\<close>

definition configure_group :: "('d, 'e, 'q) env \<Rightarrow> 'q ppm \<Rightarrow> step \<times> 'q ppm" where
  "configure_group E s =
     (if optIsSet E CHR ''g'' then
        (case conf_set E ''group.id'' (optString E CHR ''g'') s of
           (Some error_string, s1) \<Rightarrow>
             (Return False,
              logger_error (''kafka error setting configuration parameters group.id h: ''
                            @ error_string) s1)
         | (None, s1) \<Rightarrow> (Continue, s1))
      else (Continue, s))"

text \<open>Lines 399 to 414.\<close>

definition configure_offset :: "('d, 'e, 'q) env \<Rightarrow> 'q ppm \<Rightarrow> step \<times> 'q ppm" where
  "configure_offset E s =
     (if optIsSet E CHR ''o'' then
        (let ostr = optString E CHR ''o'';
             s1 = (if ostr = ''end'' then s\<lparr>offset := OFFSET_END\<rparr>
                   else if ostr = ''beginning'' then s\<lparr>offset := OFFSET_BEGINNING\<rparr>
                   else if ostr = ''stored'' then s\<lparr>offset := OFFSET_STORED\<rparr>
                   else s\<lparr>offset := strtoll ostr\<rparr>)
         in (Continue, logger_info (''offset in partition set to byte: '' @ ostr) s1))
      else (Continue, s))"

text \<open>Lines 416 to 422.\<close>

definition configure_exit_debug :: "('d, 'e, 'q) env \<Rightarrow> 'q ppm \<Rightarrow> step \<times> 'q ppm" where
  "configure_exit_debug E s =
     (let s1 = s\<lparr>exit_eof := optIsSet E CHR ''x''\<rparr>
      in if optIsSet E CHR ''d'' then
           (case conf_set E ''debug'' (optString E CHR ''d'') s1 of
              (Some error_string, s2) \<Rightarrow>
                (Return False,
                 logger_error (''kafka error setting configuration parameter debug: ''
                               @ error_string) s2)
            | (None, s2) \<Rightarrow> (Continue, s2))
         else (Continue, s1))"

text \<open>Lines 424 to 438.\<close>

definition configure_consumed_topic :: "('d, 'e, 'q) env \<Rightarrow> 'q ppm \<Rightarrow> step \<times> 'q ppm" where
  "configure_consumed_topic E s =
     (case (if optIsSet E CHR ''u'' then Some (optString E CHR ''u'')
            else pconf s ''privacy.topic.consumer'') of
        None \<Rightarrow> (Return False, logger_error ''no consumer topic was specified; must fail.'' s)
      | Some t \<Rightarrow> (let s1 = s\<lparr>consumed_topic := t\<rparr>
                  in (Continue, logger_info (''consumed topic: '' @ consumed_topic s1) s1)))"

text \<open>Lines 440 to 455.\<close>

definition configure_published_topic :: "('d, 'e, 'q) env \<Rightarrow> 'q ppm \<Rightarrow> step \<times> 'q ppm" where
  "configure_published_topic E s =
     (case (if optIsSet E CHR ''f'' then Some (optString E CHR ''f'')
            else pconf s ''privacy.topic.producer'') of
        None \<Rightarrow> (Return False, logger_error ''no publisher topic was specified; must fail.'' s)
      | Some t \<Rightarrow> (let s1 = s\<lparr>published_topic := t\<rparr>
                  in (Continue, logger_info (''published topic: '' @ published_topic s1) s1)))"

text \<open>Lines 457 to 464; the exception of \<open>stoi\<close> is caught here.\<close>

definition configure_timeout :: "('d, 'e, 'q) env \<Rightarrow> 'q ppm \<Rightarrow> step \<times> 'q ppm" where
  "configure_timeout E s =
     (case pconf s ''privacy.consumer.timeout.ms'' of
        Some v \<Rightarrow> (case stoi v of
                     Returns n \<Rightarrow> (Continue, s\<lparr>consumer_timeout := n\<rparr>)
                   | Throws e \<Rightarrow>
                       (Continue, logger_info ''using the default consumer timeout value.'' s)
                   | Undefined_behaviour \<Rightarrow> (Undefined_step, s))
      | None \<Rightarrow> (Continue, s))"

text \<open>
  The blocks up to the end of the file loop (lines 247 to 324), and the blocks that settle
  each setting from the command line and the table \<open>pconf\<close> the file left (lines 326 to 464).
\<close>

definition configure_read :: "('d, 'e, 'q) env \<Rightarrow> ('q ppm \<Rightarrow> step \<times> 'q ppm) list" where
  "configure_read E = [configure_log_level E, configure_file E]"

definition configure_apply :: "('d, 'e, 'q) env \<Rightarrow> ('q ppm \<Rightarrow> step \<times> 'q ppm) list" where
  "configure_apply E =
     [configure_mapfile E, configure_broker E, configure_partition E, configure_confluent E,
      configure_group E, configure_offset E, configure_exit_debug E,
      configure_consumed_topic E, configure_published_topic E, configure_timeout E]"

definition finish_configure :: "step \<times> 'q ppm \<Rightarrow> bool result \<times> 'q ppm" where
  "finish_configure r =
     (case r of
        (Continue, s) \<Rightarrow> (Returns True, logger_trace ''ending configure()'' s)
      | (Return b, s) \<Rightarrow> (Returns b, s)
      | (Throw e, s) \<Rightarrow> (Throws e, s)
      | (Undefined_step, s) \<Rightarrow> (Undefined_behaviour, s))"

definition configure :: "('d, 'e, 'q) env \<Rightarrow> 'q ppm \<Rightarrow> bool result \<times> 'q ppm" where
  "configure E s = finish_configure (run_steps (configure_read E @ configure_apply E) s)"

subsection \<open>Starting the consumer and the producer (lines 184 to 208 and 604 to 666)\<close>

text \<open>
  One pass of the wait loop of \<open>launch_consumer\<close>: what \<open>consumer->metadata\<close> answers (the
  error code and the names of the topics), and whether a signal arrives during the pass.
\<close>

record poll =
  metadata_err :: ErrorCode
  metadata_topics :: "string list"
  poll_signal :: bool

text \<open>
  One pass of the bootstrap loop: the signals (between the test of line 787 and the
  assignment of line 789; between that assignment and the first test of the wait loop; after
  the launch, up to the first test of the consume-produce loop or through the sleep of a
  failed launch), what creating the consumer and the producer answers (the error text or
  the name of the handle, asked only when there is none yet), the passes of the wait
  loop, the code of \<open>subscribe\<close>, the error text of creating the topic handle if it fails,
  the code of \<open>position\<close>, and the passes of the consume-produce loop.
\<close>

record generation =
  signal_before_reset :: bool
  signal_after_reset :: bool
  consumer_create :: "string + string"
  polls :: "poll list"
  subscribe_err :: ErrorCode
  producer_create :: "string + string"
  topic_create :: "string option"
  position_err :: ErrorCode
  signal_after_launch :: bool
  iterations :: "iteration list"

definition topic_available ::
  "('d, 'e, 'q) env \<Rightarrow> 'q ppm \<Rightarrow> poll \<Rightarrow> string \<Rightarrow> bool \<times> 'q ppm" where
  "topic_available E s p topic =
     (if metadata_err p = ERR_NO_ERROR then
        (if topic \<in> set (metadata_topics p)
         then (True, logger_info (''Topic: '' @ topic @ '' found in the kafka metadata.'') s)
         else (False, logger_warn (''Metadata did not contain topic: '' @ topic @ ''.'') s))
      else (False, logger_error (''cannot retrieve consumer metadata with error: ''
                                 @ err2str E (metadata_err p) @ ''.'') s))"

text \<open>
  The wait loop (lines 644 to 662). The boolean is false for the \<open>return false\<close> of line
  653 and true when the loop is left by \<open>break\<close> or by its test; \<open>None\<close> when the passes
  supplied are used up and the loop is still waiting.
\<close>

fun wait_for_topic ::
  "('d, 'e, 'q) env \<Rightarrow> ErrorCode \<Rightarrow> 'q ppm \<Rightarrow> poll list \<Rightarrow> (bool \<times> 'q ppm) option" where
  "wait_for_topic E sub s [] = (if \<not> bsms_available s then Some (True, s) else None)"
| "wait_for_topic E sub s (p # ps) =
     (if \<not> bsms_available s then Some (True, s)
      else (case topic_available E s p (consumed_topic s) of
              (True, s1) \<Rightarrow>
                (let s2 = logger_trace (''Consumer topic: '' @ consumed_topic s1
                            @ '' is available.'') s1
                 in if sub \<noteq> ERR_NO_ERROR
                    then Some (False, deliver (poll_signal p)
                           (logger_critical (''Failed to subscribe to topic: ''
                              @ consumed_topic s2 @ ''. Error: '' @ err2str E sub @ ''.'') s2))
                    else Some (True, deliver (poll_signal p) s2))
            | (False, s1) \<Rightarrow>
                wait_for_topic E sub
                  (logger_trace (''Waiting for needed consumer topic: '' @ consumed_topic s1
                     @ ''.'') (deliver (poll_signal p) s1)) ps))"

definition subscribe_consumer ::
  "('d, 'e, 'q) env \<Rightarrow> 'q ppm \<Rightarrow> generation \<Rightarrow> string \<Rightarrow> (bool \<times> 'q ppm) option" where
  "subscribe_consumer E s g name =
     (case wait_for_topic E (subscribe_err g) s (polls g) of
        None \<Rightarrow> None
      | Some (False, s1) \<Rightarrow> Some (False, s1)
      | Some (True, s1) \<Rightarrow>
          Some (True, logger_info (''Consumer: '' @ name @ '' created using topic: ''
                        @ consumed_topic s1 @ ''.'') s1))"

definition launch_consumer ::
  "('d, 'e, 'q) env \<Rightarrow> 'q ppm \<Rightarrow> generation \<Rightarrow> (bool \<times> 'q ppm) option" where
  "launch_consumer E s g =
     (case consumer s of
        Some name \<Rightarrow> subscribe_consumer E s g name
      | None \<Rightarrow>
          (case consumer_create g of
             Inl error_string \<Rightarrow>
               Some (False, logger_critical
                              (''Failed to create consumer with error: '' @ error_string) s)
           | Inr name \<Rightarrow> subscribe_consumer E (s\<lparr>consumer := Some name\<rparr>) g name))"

definition create_topic :: "'q ppm \<Rightarrow> generation \<Rightarrow> string \<Rightarrow> bool \<times> 'q ppm" where
  "create_topic s g name =
     (case topic_create g of
        Some error_string \<Rightarrow>
          (False, logger_critical (''Failed to create topic: '' @ published_topic s
                    @ ''. Error: '' @ error_string @ ''.'') (s\<lparr>filtered_topic := None\<rparr>))
      | None \<Rightarrow>
          (True, logger_info (''Producer: '' @ name @ '' created using topic: ''
                   @ published_topic s @ ''.'')
                   (s\<lparr>filtered_topic := Some (published_topic s)\<rparr>)))"

definition launch_producer :: "'q ppm \<Rightarrow> generation \<Rightarrow> bool \<times> 'q ppm" where
  "launch_producer s g =
     (case producer s of
        Some name \<Rightarrow> create_topic s g name
      | None \<Rightarrow>
          (case producer_create g of
             Inl error_string \<Rightarrow>
               (False, logger_critical
                         (''Failed to create producer with error: '' @ error_string @ ''.'') s)
           | Inr name \<Rightarrow> create_topic (s\<lparr>producer := Some name\<rparr>) g name))"

subsection \<open>The runner, \<open>operator()\<close> (lines 767 to 845)\<close>

definition EXIT_SUCCESS :: int where "EXIT_SUCCESS = 0"
definition EXIT_FAILURE :: int where "EXIT_FAILURE = 1"

text \<open>
  Lines 806 to 815: the vector handed to \<open>position\<close> is empty, so the loop of line 812
  has nothing to log.
\<close>

definition log_position :: "('d, 'e, 'q) env \<Rightarrow> 'q ppm \<Rightarrow> generation \<Rightarrow> 'q ppm" where
  "log_position E s g =
     (if position_err g \<noteq> ERR_NO_ERROR
      then logger_info (''err '' @ err2str E (position_err g)) s
      else s)"

text \<open>The body of \<open>while (bootstrap)\<close>, lines 788 to 837.\<close>

definition bootstrap_iteration ::
  "('d, 'e, 'q) env \<Rightarrow> 'q ppm \<Rightarrow> generation \<Rightarrow> 'q ppm option" where
  "bootstrap_iteration E s g =
     (let s1 = (deliver (signal_before_reset g) s)\<lparr>bsms_available := True\<rparr>;
          s2 = deliver (signal_after_reset g) s1
      in case launch_consumer E s2 g of
           None \<Rightarrow> None
         | Some (False, s3) \<Rightarrow> Some (deliver (signal_after_launch g) s3)
         | Some (True, s3) \<Rightarrow>
             (case launch_producer s3 g of
                (False, s4) \<Rightarrow> Some (deliver (signal_after_launch g) s4)
              | (True, s4) \<Rightarrow>
                  consume_produce_loop E
                    (deliver (signal_after_launch g) (log_position E s4 g)) (iterations g)))"

fun bootstrap_loop ::
  "('d, 'e, 'q) env \<Rightarrow> 'q ppm \<Rightarrow> generation list \<Rightarrow> 'q ppm option" where
  "bootstrap_loop E s [] = (if \<not> bootstrap s then Some s else None)"
| "bootstrap_loop E s (g # gs) =
     (if \<not> bootstrap s then Some s
      else (case bootstrap_iteration E s g of
              None \<Rightarrow> None
            | Some s' \<Rightarrow> bootstrap_loop E s' gs))"

text \<open>Lines 840 to 843.\<close>

definition log_summary :: "'q ppm \<Rightarrow> 'q ppm" where
  "log_summary s =
     (let s1 = logger_info ''PPM operations complete; shutting down...'' s;
          s2 = logger_info (''PPM consumed  : '' @ to_string (bsm_recv_count s1) @ '' BSMs and ''
                 @ to_string (bsm_recv_bytes s1) @ '' bytes'') s1;
          s3 = logger_info (''PPM published : '' @ to_string (bsm_send_count s2) @ '' BSMs and ''
                 @ to_string (bsm_send_bytes s2) @ '' bytes'') s2
      in logger_info (''PPM suppressed: '' @ to_string (bsm_filt_count s3) @ '' BSMs and ''
           @ to_string (bsm_filt_bytes s3) @ '' bytes'') s3)"

text \<open>
  The runner. The state it is given is the object when the two handlers have been
  installed (lines 772, 773). The result is the exit status with the final state. It is
  \<open>None\<close> where the runner has no return to speak of: when \<open>configure\<close> has returned true,
  the passes supplied are used up and the runner is still in one of its loops, or when
  \<open>configure\<close> ran into undefined behaviour.
\<close>

definition operator_call ::
  "('d, 'e, 'q) env \<Rightarrow> 'q ppm \<Rightarrow> generation list \<Rightarrow> (int \<times> 'q ppm) option" where
  "operator_call E s gs =
     (case configure E s of
        (Returns False, s1) \<Rightarrow> Some (EXIT_FAILURE, s1)
      | (Throws e, s1) \<Rightarrow>
          Some (EXIT_FAILURE, s1\<lparr>cerr := cerr s1 @ [''Fatal std::Exception: '' @ what e]\<rparr>)
      | (Undefined_behaviour, s1) \<Rightarrow> None
      | (Returns True, s1) \<Rightarrow>
          (case bootstrap_loop E s1 gs of
             None \<Rightarrow> None
           | Some s2 \<Rightarrow> Some (EXIT_SUCCESS, log_summary s2)))"

subsection \<open>What the configuration file supplies\<close>

text \<open>
  The value the file gives a key of the module: the entry of \<open>pconf\<close> when the file loop
  has ended (lines 247 to 324). \<open>with_setting\<close> overwrites one entry of \<open>pconf\<close>.
\<close>

definition file_setting :: "('d, 'e, 'q) env \<Rightarrow> 'q ppm \<Rightarrow> string \<Rightarrow> string option" where
  "file_setting E s k = pconf (snd (run_steps (configure_read E) s)) k"

definition with_setting :: "string \<Rightarrow> string option \<Rightarrow> 'q ppm \<Rightarrow> 'q ppm" where
  "with_setting k v s = s\<lparr>pconf := (pconf s)(k := v)\<rparr>"

text \<open>
  What a block does when it returns from \<open>configure\<close>: it returns false, and the last
  call on the logger was \<open>logger->error\<close>.
\<close>

definition returns_with_error :: "step \<times> 'q ppm \<Rightarrow> bool" where
  "returns_with_error r =
     (case fst r of
        Return b \<Rightarrow> \<not> b \<and> log (snd r) \<noteq> [] \<and> fst (last (log (snd r))) = err_level
      | _ \<Rightarrow> True)"

subsection \<open>Example surroundings\<close>

text \<open>
  Concrete surroundings on which the functions above are evaluated: a handler that
  suppresses the payload \<open>drop\<close> and retains every other one, messages, passes of the
  consume-produce loop, and a command line with a configuration file.
\<close>

definition example_handler :: BSMHandler where
  "example_handler = \<lparr> process = (\<lambda>p. p \<noteq> ''drop''), get_result_string = ''geoposition'',
      get_bsm_logString = ''(BEEF1234,35.9610,-83.9200)'', get_json = ''{id:BEEF1234}'',
      get_bsm_buffer_size = 13 \<rparr>"

definition example_message :: "ErrorCode \<Rightarrow> string \<Rightarrow> Message" where
  "example_message e p = \<lparr> err = e, payload = p, errstr = ''broker says no'', offset_of = 42,
      timestamp_type = MSG_TIMESTAMP_NOT_AVAILABLE, timestamp = 0, key = None \<rparr>"

definition example_iteration :: "ErrorCode \<Rightarrow> string \<Rightarrow> ErrorCode \<Rightarrow> iteration" where
  "example_iteration e p status = \<lparr> consumed = example_message e p, handler = example_handler,
      produce_status = status, signal = False \<rparr>"

fun example_split :: "string \<Rightarrow> char \<Rightarrow> string list" where
  "example_split [] c = [[]]"
| "example_split (x # xs) c =
     (if x = c then [] # example_split xs c
      else (case example_split xs c of p # ps \<Rightarrow> (x # p) # ps | [] \<Rightarrow> [[x]]))"

definition example_strip :: "string \<Rightarrow> string" where
  "example_strip str = rev (dropWhile isspace (rev (dropWhile isspace str)))"

definition example_file :: "string list" where
  "example_file =
     [''# privacy protection module'',
      ''group.id=ppm'',
      ''privacy.filter.geofence.mapfile=map.csv'',
      ''privacy.topic.consumer=file.in'',
      ''privacy.topic.producer=file.out'',
      ''privacy.kafka.partition=3'']"

definition example_cli :: "char \<rightharpoonup> string" where
  "example_cli = [CHR ''c'' \<mapsto> ''ppm.properties'', CHR ''x'' \<mapsto> [], CHR ''u'' \<mapsto> ''cli.in'',
                  CHR ''v'' \<mapsto> ''debug'']"

definition example_env :: "string list \<Rightarrow> (char \<rightharpoonup> string) \<Rightarrow> (unit, unit, nat) env" where
  "example_env file cli = \<lparr>
      optIsSet = (\<lambda>c. cli c \<noteq> None),
      optString = (\<lambda>c. case cli c of Some a \<Rightarrow> a | None \<Rightarrow> []),
      optInt = (\<lambda>c. case cli c of Some a \<Rightarrow> stoi a | None \<Rightarrow> Returns 0),
      ifstream_lines = (\<lambda>f. if f = ''ppm.properties'' then Some file else None),
      string_utilities_strip = example_strip,
      string_utilities_split = example_split,
      Conf_set = (\<lambda>t k v. if t = CONF_GLOBAL
                              \<and> (k = ''group.id'' \<or> k = ''metadata.broker.list'' \<or> k = ''debug'')
                           then None else Some ''No such configuration property''),
      getenv = (\<lambda>v. None),
      err2str = (\<lambda>e. ''Local: Queue full''),
      stod = (\<lambda>v. Throws (invalid_argument ''stod'')),
      make_Quad = (\<lambda>sw ne. 0),
      make_shapes = (\<lambda>f. if f = ''map.csv'' then Returns ([], [(), ()], [])
                          else Throws (runtime_error ''cannot open map file'')),
      Quad_insert = (\<lambda>q e. Suc q) \<rparr>"

text \<open>
  Three more files, all without a consumer topic: one whose partition is not a number,
  one with nothing else amiss (its partition, written with spaces around the equals sign,
  is 0), and one without a partition, which leaves the default \<open>PARTITION_UA\<close>; and a
  command line that names the file only.
\<close>

definition example_file_bad_partition :: "string list" where
  "example_file_bad_partition =
     [''privacy.filter.geofence.mapfile=map.csv'',
      ''privacy.kafka.partition=abc'',
      ''privacy.topic.producer=file.out'']"

definition example_file_no_consumer :: "string list" where
  "example_file_no_consumer =
     [''privacy.filter.geofence.mapfile=map.csv'',
      ''privacy.kafka.partition = 0'',
      ''privacy.topic.producer=file.out'']"

definition example_file_no_partition :: "string list" where
  "example_file_no_partition =
     [''privacy.filter.geofence.mapfile=map.csv'',
      ''privacy.topic.producer=file.out'']"

definition example_cli_file_only :: "char \<rightharpoonup> string" where
  "example_cli_file_only = [CHR ''c'' \<mapsto> ''ppm.properties'']"

text \<open>
  A pass of the bootstrap loop in which the broker answers: the consumer and the producer
  are created, the metadata names the consumed topic at the first poll, and \<open>subscribe\<close>
  and \<open>position\<close> succeed. \<open>early\<close> is whether a signal arrives between the test of line
  787 and the assignment of line 789; no other signal arrives outside the passes \<open>its\<close> of
  the consume-produce loop.
\<close>

definition example_generation :: "bool \<Rightarrow> iteration list \<Rightarrow> generation" where
  "example_generation early its = \<lparr>
      signal_before_reset = early,
      signal_after_reset = False,
      consumer_create = Inr ''rdkafka#consumer-1'',
      polls = [\<lparr> metadata_err = ERR_NO_ERROR, metadata_topics = [''other'', ''cli.in''],
                 poll_signal = False \<rparr>],
      subscribe_err = ERR_NO_ERROR,
      producer_create = Inr ''rdkafka#producer-2'',
      topic_create = None,
      position_err = ERR_NO_ERROR,
      signal_after_launch = False,
      iterations = its \<rparr>"

section \<open>Properties\<close>

subsection \<open>Consuming one message\<close>

lemmas logger_defs =
  logger_trace_def logger_info_def logger_warn_def logger_error_def logger_critical_def

lemma msg_consume_retained:
  "fst (msg_consume s m h) = (err m = ERR_NO_ERROR \<and> process h (payload m))"
  by (simp add: msg_consume_def Let_def split: ErrorCode.split)

lemma msg_consume_counts:
  "bsm_recv_count (snd (msg_consume s m h))
     = bsm_recv_count s + (if err m = ERR_NO_ERROR then 1 else 0)"
  "bsm_filt_count (snd (msg_consume s m h))
     = bsm_filt_count s + (if err m = ERR_NO_ERROR \<and> \<not> process h (payload m) then 1 else 0)"
  "bsm_send_count (snd (msg_consume s m h)) = bsm_send_count s"
  by (simp_all add: msg_consume_def logger_defs log_timestamp_def log_key_def Let_def
        split: ErrorCode.split option.split)

lemma msg_consume_bytes:
  "bsm_recv_bytes (snd (msg_consume s m h))
     = bsm_recv_bytes s + (if err m = ERR_NO_ERROR then len m else 0)"
  "bsm_filt_bytes (snd (msg_consume s m h))
     = bsm_filt_bytes s + (if err m = ERR_NO_ERROR \<and> \<not> process h (payload m) then len m else 0)"
  "bsm_send_bytes (snd (msg_consume s m h)) = bsm_send_bytes s"
  by (simp_all add: msg_consume_def logger_defs log_timestamp_def log_key_def Let_def
        split: ErrorCode.split option.split)

lemma msg_consume_frame:
  "bootstrap (snd (msg_consume s m h)) = bootstrap s"
  "produced (snd (msg_consume s m h)) = produced s"
  "filtered_topic (snd (msg_consume s m h)) = filtered_topic s"
  "partition (snd (msg_consume s m h)) = partition s"
  by (simp_all add: msg_consume_def logger_defs log_timestamp_def log_key_def Let_def
        split: ErrorCode.split option.split)

lemma msg_consume_available:
  "err m = ERR_NO_ERROR \<Longrightarrow> bsms_available (snd (msg_consume s m h)) = bsms_available s"
  by (simp add: msg_consume_def logger_defs log_timestamp_def log_key_def Let_def
        split: option.split)

lemma msg_consume_never_raises_flag:
  "bsms_available (snd (msg_consume s m h)) \<Longrightarrow> bsms_available s"
  by (simp add: msg_consume_def logger_defs log_timestamp_def log_key_def Let_def
        split: ErrorCode.splits option.splits if_splits)

lemma msg_consume_timed_out:
  "err m = ERR__TIMED_OUT \<Longrightarrow>
     msg_consume s m h =
       (False, s\<lparr>log := log s @ [(info, ''Waiting for more BSMs from the ODE producer.'')]\<rparr>)"
  by (simp add: msg_consume_def logger_info_def)

subsection \<open>One pass of the consume-produce loop\<close>

lemma deliver_fields [simp]:
  "bsm_recv_count (deliver b s) = bsm_recv_count s"
  "bsm_send_count (deliver b s) = bsm_send_count s"
  "bsm_filt_count (deliver b s) = bsm_filt_count s"
  "bsm_recv_bytes (deliver b s) = bsm_recv_bytes s"
  "bsm_send_bytes (deliver b s) = bsm_send_bytes s"
  "bsm_filt_bytes (deliver b s) = bsm_filt_bytes s"
  "produced (deliver b s) = produced s"
  "log (deliver b s) = log s"
  "consumer (deliver b s) = consumer s"
  "producer (deliver b s) = producer s"
  "consumed_topic (deliver b s) = consumed_topic s"
  "published_topic (deliver b s) = published_topic s"
  by (simp_all add: deliver_def sigterm_def)

lemma deliver_flags [simp]:
  "bsms_available (deliver b s) = (bsms_available s \<and> \<not> b)"
  "bootstrap (deliver b s) = (bootstrap s \<and> \<not> b)"
  by (simp_all add: deliver_def sigterm_def)

lemma iteration_unfold:
  "consume_produce_iteration E s it =
     deliver (signal it)
       (if fst (msg_consume s (consumed it) (handler it))
        then produce_retained E (snd (msg_consume s (consumed it) (handler it))) it
        else snd (msg_consume s (consumed it) (handler it)))"
  by (simp add: consume_produce_iteration_def split_beta Let_def)

lemma produce_retained_counts:
  "bsm_recv_count (produce_retained E s it) = bsm_recv_count s"
  "bsm_filt_count (produce_retained E s it) = bsm_filt_count s"
  "bsm_send_count (produce_retained E s it)
     = bsm_send_count s + (if produce_status it = ERR_NO_ERROR then 1 else 0)"
  "bsm_recv_bytes (produce_retained E s it) = bsm_recv_bytes s"
  "bsm_filt_bytes (produce_retained E s it) = bsm_filt_bytes s"
  "bsm_send_bytes (produce_retained E s it)
     = bsm_send_bytes s + (if produce_status it = ERR_NO_ERROR then len (consumed it) else 0)"
  by (simp_all add: produce_retained_def logger_defs Let_def)

lemma produce_retained_flags:
  "bsms_available (produce_retained E s it) = bsms_available s"
  "bootstrap (produce_retained E s it) = bootstrap s"
  by (simp_all add: produce_retained_def logger_defs Let_def)

lemma iteration_counts:
  "bsm_recv_count (consume_produce_iteration E s it)
     = bsm_recv_count s + (if err (consumed it) = ERR_NO_ERROR then 1 else 0)"
  "bsm_filt_count (consume_produce_iteration E s it)
     = bsm_filt_count s + (if err (consumed it) = ERR_NO_ERROR
                             \<and> \<not> process (handler it) (payload (consumed it)) then 1 else 0)"
  "bsm_send_count (consume_produce_iteration E s it)
     = bsm_send_count s + (if err (consumed it) = ERR_NO_ERROR
                             \<and> process (handler it) (payload (consumed it))
                             \<and> produce_status it = ERR_NO_ERROR then 1 else 0)"
  by (simp_all add: iteration_unfold msg_consume_retained msg_consume_counts
        produce_retained_counts)

lemma iteration_bytes:
  "bsm_recv_bytes (consume_produce_iteration E s it)
     = bsm_recv_bytes s + (if err (consumed it) = ERR_NO_ERROR then len (consumed it) else 0)"
  "bsm_filt_bytes (consume_produce_iteration E s it)
     = bsm_filt_bytes s + (if err (consumed it) = ERR_NO_ERROR
                             \<and> \<not> process (handler it) (payload (consumed it))
                           then len (consumed it) else 0)"
  "bsm_send_bytes (consume_produce_iteration E s it)
     = bsm_send_bytes s + (if err (consumed it) = ERR_NO_ERROR
                             \<and> process (handler it) (payload (consumed it))
                             \<and> produce_status it = ERR_NO_ERROR
                           then len (consumed it) else 0)"
  by (simp_all add: iteration_unfold msg_consume_retained msg_consume_bytes
        produce_retained_counts)

lemma iteration_bootstrap:
  "bootstrap (consume_produce_iteration E s it) = (bootstrap s \<and> \<not> signal it)"
  by (simp add: iteration_unfold msg_consume_frame produce_retained_flags)

lemma iteration_never_raises_flag:
  "bsms_available (consume_produce_iteration E s it) \<Longrightarrow> bsms_available s \<and> \<not> signal it"
  by (auto simp: iteration_unfold produce_retained_flags dest: msg_consume_never_raises_flag
        split: if_splits)

lemma iteration_timed_out:
  "err (consumed it) = ERR__TIMED_OUT \<Longrightarrow>
   consume_produce_iteration E s it =
     deliver (signal it)
       (s\<lparr>log := log s @ [(info, ''Waiting for more BSMs from the ODE producer.'')]\<rparr>)"
  by (simp add: iteration_unfold msg_consume_timed_out)

lemma produce_failed_iff:
  "produce_failed s it =
     (err (consumed it) = ERR_NO_ERROR \<and> process (handler it) (payload (consumed it))
      \<and> produce_status it \<noteq> ERR_NO_ERROR)"
  by (simp add: produce_failed_def msg_consume_retained)

subsection \<open>Runs of the consume-produce loop\<close>

lemma run_stopped: "\<not> bsms_available s \<Longrightarrow> consume_produce_run E s its = s"
  by (cases its) simp_all

lemma loop_stopped: "\<not> bsms_available s \<Longrightarrow> consume_produce_loop E s its = Some s"
  by (simp add: consume_produce_loop_def run_stopped)

lemma run_append:
  "consume_produce_run E s (xs @ ys) = consume_produce_run E (consume_produce_run E s xs) ys"
proof (induction xs arbitrary: s)
  case Nil
  show ?case by simp
next
  case (Cons x xs)
  then show ?case by (simp add: run_stopped)
qed

lemma run_conservation:
  "bsm_recv_count s = bsm_send_count s + bsm_filt_count s + pe \<Longrightarrow>
   bsm_recv_count (consume_produce_run E s its)
     = bsm_send_count (consume_produce_run E s its) + bsm_filt_count (consume_produce_run E s its)
       + (pe + produce_errors E s its)"
proof (induction its arbitrary: s pe)
  case Nil
  then show ?case by simp
next
  case (Cons it its)
  show ?case
  proof (cases "bsms_available s")
    case False
    with Cons.prems show ?thesis by simp
  next
    case True
    let ?s = "consume_produce_iteration E s it"
    let ?d = "if produce_failed s it then 1 else 0 :: nat"
    have "bsm_recv_count ?s = bsm_send_count ?s + bsm_filt_count ?s + (pe + ?d)"
      using Cons.prems by (auto simp: iteration_counts produce_failed_iff)
    from Cons.IH [OF this] True show ?thesis by simp
  qed
qed

lemma run_bytes:
  "bsm_filt_bytes s \<le> bsm_recv_bytes s \<Longrightarrow>
   bsm_send_bytes s \<le> bsm_recv_bytes s + d * bsm_send_count s \<Longrightarrow>
   bsm_filt_bytes (consume_produce_run E s its) \<le> bsm_recv_bytes (consume_produce_run E s its) \<and>
   bsm_send_bytes (consume_produce_run E s its)
      \<le> bsm_recv_bytes (consume_produce_run E s its)
          + d * bsm_send_count (consume_produce_run E s its)"
proof (induction its arbitrary: s)
  case Nil
  then show ?case by simp
next
  case (Cons it its)
  show ?case
  proof (cases "bsms_available s")
    case False
    with Cons.prems show ?thesis by simp
  next
    case True
    let ?s = "consume_produce_iteration E s it"
    have a: "bsm_filt_bytes ?s \<le> bsm_recv_bytes ?s"
      using Cons.prems(1) by (simp add: iteration_bytes)
    have b: "bsm_send_bytes ?s \<le> bsm_recv_bytes ?s + d * bsm_send_count ?s"
      using Cons.prems(2) by (auto simp: iteration_bytes iteration_counts)
    from Cons.IH [OF a b] True show ?thesis by simp
  qed
qed

lemmas example_defs = example_handler_def example_message_def example_iteration_def

subsection \<open>The claims about the consume-produce loop\<close>

text \<open>
  C1, counter conservation. Over every run of the consume-produce loop, from a state in which
  the received count is the sent count plus the filtered count plus \<open>pe\<close>, the received
  count at the end of the run is the sent count plus the filtered count plus \<open>pe\<close> and the
  produce errors of the run. One pass adds one to the received count exactly when the
  message has no error, one to the filtered count exactly when such a message is
  suppressed, one to the sent count exactly when such a message is retained and \<open>produce\<close>
  returns no error; the produce errors of a pass are one exactly when a retained message's
  \<open>produce\<close> returned an error.
\<close>

theorem counter_conservation:
  "bsm_recv_count s = bsm_send_count s + bsm_filt_count s + pe \<Longrightarrow>
   bsm_recv_count (consume_produce_run E s its)
     = bsm_send_count (consume_produce_run E s its)
       + bsm_filt_count (consume_produce_run E s its) + (pe + produce_errors E s its)
   \<and> bsm_recv_count (consume_produce_iteration E s it)
       = bsm_recv_count s + (if err (consumed it) = ERR_NO_ERROR then 1 else 0)
   \<and> bsm_filt_count (consume_produce_iteration E s it)
       = bsm_filt_count s + (if err (consumed it) = ERR_NO_ERROR
                               \<and> \<not> process (handler it) (payload (consumed it)) then 1 else 0)
   \<and> bsm_send_count (consume_produce_iteration E s it)
       = bsm_send_count s + (if fst (msg_consume s (consumed it) (handler it))
                               \<and> produce_status it = ERR_NO_ERROR then 1 else 0)
   \<and> produce_errors E s [it]
       = (if bsms_available s \<and> fst (msg_consume s (consumed it) (handler it))
             \<and> produce_status it \<noteq> ERR_NO_ERROR then 1 else 0)"
  by (simp add: run_conservation iteration_counts msg_consume_retained produce_failed_iff)

theorem counter_conservation_witness:
  "bsm_recv_count (PPM info :: nat ppm)
     = bsm_send_count (PPM info :: nat ppm) + bsm_filt_count (PPM info :: nat ppm) + 0
   \<and> bsm_recv_count (consume_produce_run (example_env example_file example_cli) (PPM info)
        [example_iteration ERR_NO_ERROR ''keep'' ERR_NO_ERROR,
         example_iteration ERR_NO_ERROR ''drop'' ERR_NO_ERROR,
         example_iteration ERR_NO_ERROR ''keep'' (ERR_OTHER (- 184))]) = 3
   \<and> bsm_send_count (consume_produce_run (example_env example_file example_cli) (PPM info)
        [example_iteration ERR_NO_ERROR ''keep'' ERR_NO_ERROR,
         example_iteration ERR_NO_ERROR ''drop'' ERR_NO_ERROR,
         example_iteration ERR_NO_ERROR ''keep'' (ERR_OTHER (- 184))]) = 1
   \<and> bsm_filt_count (consume_produce_run (example_env example_file example_cli) (PPM info)
        [example_iteration ERR_NO_ERROR ''keep'' ERR_NO_ERROR,
         example_iteration ERR_NO_ERROR ''drop'' ERR_NO_ERROR,
         example_iteration ERR_NO_ERROR ''keep'' (ERR_OTHER (- 184))]) = 1
   \<and> produce_errors (example_env example_file example_cli) (PPM info)
        [example_iteration ERR_NO_ERROR ''keep'' ERR_NO_ERROR,
         example_iteration ERR_NO_ERROR ''drop'' ERR_NO_ERROR,
         example_iteration ERR_NO_ERROR ''keep'' (ERR_OTHER (- 184))] = 1"
  using counter_conservation [of "PPM info :: nat ppm" 0 "example_env example_file example_cli"
      "[example_iteration ERR_NO_ERROR ''keep'' ERR_NO_ERROR,
        example_iteration ERR_NO_ERROR ''drop'' ERR_NO_ERROR,
        example_iteration ERR_NO_ERROR ''keep'' (ERR_OTHER (- 184))]"
      "example_iteration ERR_NO_ERROR ''keep'' ERR_NO_ERROR"]
  by (simp add: example_defs PPM_def iteration_unfold msg_consume_def produce_retained_def
        produce_failed_def log_timestamp_def log_key_def logger_defs Let_def)

text \<open>
  C2, byte conservation. Over every run of the consume-produce loop, from a state in which
  the filtered bytes are at most the received bytes and the sent bytes are at most the
  received bytes plus \<open>max_redaction_delta\<close> for each sent message, both bounds hold at the
  end of the run. One pass adds the length of the message to the received bytes exactly
  when the message has no error, to the filtered bytes exactly when such a message is
  suppressed, and to the sent bytes exactly when it is retained and \<open>produce\<close> returns no
  error.
\<close>

theorem byte_conservation:
  "bsm_filt_bytes s \<le> bsm_recv_bytes s \<Longrightarrow>
   bsm_send_bytes s \<le> bsm_recv_bytes s + max_redaction_delta * bsm_send_count s \<Longrightarrow>
   bsm_filt_bytes (consume_produce_run E s its) \<le> bsm_recv_bytes (consume_produce_run E s its)
   \<and> bsm_send_bytes (consume_produce_run E s its)
       \<le> bsm_recv_bytes (consume_produce_run E s its)
           + max_redaction_delta * bsm_send_count (consume_produce_run E s its)
   \<and> bsm_recv_bytes (consume_produce_iteration E s it)
       = bsm_recv_bytes s + (if err (consumed it) = ERR_NO_ERROR then len (consumed it) else 0)
   \<and> bsm_filt_bytes (consume_produce_iteration E s it)
       = bsm_filt_bytes s + (if err (consumed it) = ERR_NO_ERROR
                               \<and> \<not> process (handler it) (payload (consumed it))
                             then len (consumed it) else 0)
   \<and> bsm_send_bytes (consume_produce_iteration E s it)
       = bsm_send_bytes s + (if fst (msg_consume s (consumed it) (handler it))
                               \<and> produce_status it = ERR_NO_ERROR
                             then len (consumed it) else 0)"
  using run_bytes [of s max_redaction_delta E its]
  by (simp add: iteration_bytes msg_consume_retained)

theorem byte_conservation_witness:
  "bsm_filt_bytes (PPM info :: nat ppm) \<le> bsm_recv_bytes (PPM info :: nat ppm)
   \<and> bsm_send_bytes (PPM info :: nat ppm)
       \<le> bsm_recv_bytes (PPM info :: nat ppm) + 7 * bsm_send_count (PPM info :: nat ppm)
   \<and> bsm_recv_bytes (consume_produce_run (example_env example_file example_cli) (PPM info)
        [example_iteration ERR_NO_ERROR ''keep'' ERR_NO_ERROR,
         example_iteration ERR_NO_ERROR ''drop'' ERR_NO_ERROR,
         example_iteration ERR_NO_ERROR ''keep'' (ERR_OTHER (- 184))]) = 12
   \<and> bsm_filt_bytes (consume_produce_run (example_env example_file example_cli) (PPM info)
        [example_iteration ERR_NO_ERROR ''keep'' ERR_NO_ERROR,
         example_iteration ERR_NO_ERROR ''drop'' ERR_NO_ERROR,
         example_iteration ERR_NO_ERROR ''keep'' (ERR_OTHER (- 184))]) = 4
   \<and> bsm_send_bytes (consume_produce_run (example_env example_file example_cli) (PPM info)
        [example_iteration ERR_NO_ERROR ''keep'' ERR_NO_ERROR,
         example_iteration ERR_NO_ERROR ''drop'' ERR_NO_ERROR,
         example_iteration ERR_NO_ERROR ''keep'' (ERR_OTHER (- 184))]) = 4"
  using byte_conservation [of "PPM info :: nat ppm" 7 "example_env example_file example_cli"
      "[example_iteration ERR_NO_ERROR ''keep'' ERR_NO_ERROR,
        example_iteration ERR_NO_ERROR ''drop'' ERR_NO_ERROR,
        example_iteration ERR_NO_ERROR ''keep'' (ERR_OTHER (- 184))]"
      "example_iteration ERR_NO_ERROR ''keep'' ERR_NO_ERROR"]
  by (simp add: example_defs PPM_def iteration_unfold msg_consume_def produce_retained_def
        log_timestamp_def log_key_def logger_defs len_def Let_def)

text \<open>
  C4, a failed produce is not fatal and does not count as sent. When a message without
  error is retained and \<open>produce\<close> returns an error status, the pass ends with the error
  logged, the sent count, the sent bytes and the accepted messages as before, the received
  count one more and the received bytes the message's length more; unless a signal arrived
  during the pass the two flags are as before, and a loop that was running goes on to the
  next pass.
\<close>

theorem produce_failure_is_not_fatal:
  assumes "err (consumed it) = ERR_NO_ERROR"
    and "process (handler it) (payload (consumed it))"
    and "produce_status it \<noteq> ERR_NO_ERROR"
  shows "last (log (consume_produce_iteration E s it))
           = (err_level, ''failed to produce retained BSM because: '' @ err2str E (produce_status it))
       \<and> bsm_send_count (consume_produce_iteration E s it) = bsm_send_count s
       \<and> bsm_send_bytes (consume_produce_iteration E s it) = bsm_send_bytes s
       \<and> produced (consume_produce_iteration E s it) = produced s
       \<and> bsm_recv_count (consume_produce_iteration E s it) = bsm_recv_count s + 1
       \<and> bsm_recv_bytes (consume_produce_iteration E s it) = bsm_recv_bytes s + len (consumed it)
       \<and> (\<not> signal it \<longrightarrow>
            bsms_available (consume_produce_iteration E s it) = bsms_available s
          \<and> bootstrap (consume_produce_iteration E s it) = bootstrap s)
       \<and> (bsms_available s \<and> \<not> signal it \<longrightarrow>
            consume_produce_run E s (it # next_it # its)
              = consume_produce_run E
                  (consume_produce_iteration E (consume_produce_iteration E s it) next_it) its)"
proof -
  have r: "fst (msg_consume s (consumed it) (handler it))"
    using assms by (simp add: msg_consume_retained)
  have u: "consume_produce_iteration E s it
             = deliver (signal it) (logger_error (''failed to produce retained BSM because: ''
                 @ err2str E (produce_status it)) (snd (msg_consume s (consumed it) (handler it))))"
    using r assms(3) by (simp add: iteration_unfold produce_retained_def)
  have l: "last (log (consume_produce_iteration E s it))
           = (err_level, ''failed to produce retained BSM because: '' @ err2str E (produce_status it))"
    by (simp add: u logger_error_def)
  have c: "bsm_send_count (consume_produce_iteration E s it) = bsm_send_count s"
          "bsm_recv_count (consume_produce_iteration E s it) = bsm_recv_count s + 1"
    using assms by (simp_all add: iteration_counts)
  have b: "bsm_send_bytes (consume_produce_iteration E s it) = bsm_send_bytes s"
          "bsm_recv_bytes (consume_produce_iteration E s it) = bsm_recv_bytes s + len (consumed it)"
    using assms by (simp_all add: iteration_bytes)
  have p: "produced (consume_produce_iteration E s it) = produced s"
    by (simp add: u logger_error_def msg_consume_frame)
  have f: "\<not> signal it \<Longrightarrow> bsms_available (consume_produce_iteration E s it) = bsms_available s
          \<and> bootstrap (consume_produce_iteration E s it) = bootstrap s"
    using assms(1) by (simp add: u logger_error_def msg_consume_available msg_consume_frame)
  have n: "bsms_available s \<and> \<not> signal it \<Longrightarrow>
            consume_produce_run E s (it # next_it # its)
              = consume_produce_run E
                  (consume_produce_iteration E (consume_produce_iteration E s it) next_it) its"
    using f by simp
  from l c b p f n show ?thesis by blast
qed

theorem produce_failure_is_not_fatal_witness:
  "err (consumed (example_iteration ERR_NO_ERROR ''keep'' (ERR_OTHER (- 184)))) = ERR_NO_ERROR
   \<and> process (handler (example_iteration ERR_NO_ERROR ''keep'' (ERR_OTHER (- 184))))
       (payload (consumed (example_iteration ERR_NO_ERROR ''keep'' (ERR_OTHER (- 184)))))
   \<and> produce_status (example_iteration ERR_NO_ERROR ''keep'' (ERR_OTHER (- 184))) \<noteq> ERR_NO_ERROR
   \<and> last (log (consume_produce_iteration (example_env example_file example_cli)
        (PPM info) (example_iteration ERR_NO_ERROR ''keep'' (ERR_OTHER (- 184)))))
       = (err_level, ''failed to produce retained BSM because: Local: Queue full'')
   \<and> bsm_send_count (consume_produce_iteration (example_env example_file example_cli)
        (PPM info) (example_iteration ERR_NO_ERROR ''keep'' (ERR_OTHER (- 184)))) = 0
   \<and> bsm_recv_count (consume_produce_iteration (example_env example_file example_cli)
        (PPM info) (example_iteration ERR_NO_ERROR ''keep'' (ERR_OTHER (- 184)))) = 1
   \<and> bsms_available (consume_produce_iteration (example_env example_file example_cli)
        (PPM info) (example_iteration ERR_NO_ERROR ''keep'' (ERR_OTHER (- 184))))"
  using produce_failure_is_not_fatal [of "example_iteration ERR_NO_ERROR ''keep'' (ERR_OTHER (- 184))"
          "example_env example_file example_cli" "PPM info :: nat ppm"]
  by (simp add: example_defs example_env_def PPM_def)

text \<open>
  C9, a timeout is a no-op. For a message whose error code is timed-out, \<open>msg_consume\<close>
  returns false and the state it leaves is the state it was given with one line added to
  the log: no counter and neither flag changes.
\<close>

theorem timeout_is_noop:
  "err message = ERR__TIMED_OUT \<Longrightarrow>
     msg_consume s message h =
       (False, s\<lparr>log := log s @ [(info, ''Waiting for more BSMs from the ODE producer.'')]\<rparr>)"
  by (simp add: msg_consume_def logger_info_def)

theorem timeout_is_noop_witness:
  "err (example_message ERR__TIMED_OUT []) = ERR__TIMED_OUT \<and>
   msg_consume (PPM info :: nat ppm) (example_message ERR__TIMED_OUT []) example_handler =
     (False, (PPM info)\<lparr>log := [(info, ''Waiting for more BSMs from the ODE producer.'')]\<rparr>)"
  using timeout_is_noop [of "example_message ERR__TIMED_OUT []" "PPM info :: nat ppm" example_handler]
  by (simp add: example_message_def PPM_def)

text \<open>
  C10, the sent bytes count the consumed length. When a message without error is retained
  and \<open>produce\<close> returns no error, the pass adds the length of the consumed message to
  \<open>bsm_send_bytes\<close>, whatever size the handler reports for its buffer, while the size handed
  to the producer with the handler's text is that buffer size.
\<close>

theorem send_bytes_count_consumed_length:
  assumes "err (consumed it) = ERR_NO_ERROR"
    and "process (handler it) (payload (consumed it))"
    and "produce_status it = ERR_NO_ERROR"
  shows "bsm_send_bytes (consume_produce_iteration E s it) = bsm_send_bytes s + len (consumed it)
       \<and> bsm_send_bytes (consume_produce_iteration E s
            (it\<lparr>handler := (handler it)\<lparr>get_bsm_buffer_size := n\<rparr>\<rparr>))
           = bsm_send_bytes s + len (consumed it)
       \<and> produced (consume_produce_iteration E s it)
           = produced s @ [(filtered_topic s, partition s, get_json (handler it),
                            get_bsm_buffer_size (handler it))]"
proof -
  have a: "bsm_send_bytes (consume_produce_iteration E s it) = bsm_send_bytes s + len (consumed it)"
    using assms by (simp add: iteration_bytes)
  have b: "bsm_send_bytes (consume_produce_iteration E s
            (it\<lparr>handler := (handler it)\<lparr>get_bsm_buffer_size := n\<rparr>\<rparr>))
           = bsm_send_bytes s + len (consumed it)"
    using assms by (simp add: iteration_bytes)
  have c: "produced (consume_produce_iteration E s it)
           = produced s @ [(filtered_topic s, partition s, get_json (handler it),
                            get_bsm_buffer_size (handler it))]"
    using assms
    by (simp add: iteration_unfold msg_consume_retained produce_retained_def Let_def
          logger_defs msg_consume_frame)
  from a b c show ?thesis by blast
qed

theorem send_bytes_count_consumed_length_witness:
  "err (consumed (example_iteration ERR_NO_ERROR ''keep'' ERR_NO_ERROR)) = ERR_NO_ERROR
   \<and> process (handler (example_iteration ERR_NO_ERROR ''keep'' ERR_NO_ERROR))
       (payload (consumed (example_iteration ERR_NO_ERROR ''keep'' ERR_NO_ERROR)))
   \<and> produce_status (example_iteration ERR_NO_ERROR ''keep'' ERR_NO_ERROR) = ERR_NO_ERROR
   \<and> bsm_send_bytes (consume_produce_iteration (example_env example_file example_cli)
        (PPM info) (example_iteration ERR_NO_ERROR ''keep'' ERR_NO_ERROR)) = 4
   \<and> produced (consume_produce_iteration (example_env example_file example_cli)
        (PPM info) (example_iteration ERR_NO_ERROR ''keep'' ERR_NO_ERROR))
       = [(None, - 1, ''{id:BEEF1234}'', 13)]"
  using send_bytes_count_consumed_length [of "example_iteration ERR_NO_ERROR ''keep'' ERR_NO_ERROR"
          "example_env example_file example_cli" "PPM info :: nat ppm" 13]
  by (simp add: example_defs PPM_def len_def PARTITION_UA_def)

subsection \<open>Sequences of blocks\<close>

lemma run_steps_append:
  "run_steps (fs @ gs) s =
     (case run_steps fs s of (Continue, s') \<Rightarrow> run_steps gs s' | (r, s') \<Rightarrow> (r, s'))"
  by (induction fs arbitrary: s) (auto split: prod.splits step.splits)

lemma run_steps_Continue_append:
  "run_steps (fs @ gs) s = (Continue, s') \<longleftrightarrow>
     (\<exists>s1. run_steps fs s = (Continue, s1) \<and> run_steps gs s1 = (Continue, s'))"
  by (cases "run_steps fs s"; cases "fst (run_steps fs s)") (auto simp: run_steps_append)

lemma run_steps_related:
  assumes refl: "\<And>s. R s s"
    and trans: "\<And>a b c. R a b \<Longrightarrow> R b c \<Longrightarrow> R a c"
    and step: "\<And>f s. f \<in> set fs \<Longrightarrow> R s (snd (f s))"
  shows "R s (snd (run_steps fs s))"
  using step
proof (induction fs arbitrary: s)
  case Nil
  show ?case by (simp add: refl)
next
  case (Cons f fs)
  have h: "R s (snd (f s))" using Cons.prems by simp
  show ?case
  proof (cases "f s")
    case (Pair r s')
    with h have e: "R s s'" by simp
    show ?thesis
    proof (cases r)
      case Continue
      have "R s' (snd (run_steps fs s'))" using Cons.IH Cons.prems by simp
      with e have "R s (snd (run_steps fs s'))" by (rule trans)
      with Pair Continue show ?thesis by simp
    qed (use Pair e in simp_all)
  qed
qed

lemma run_steps_frame:
  assumes "\<And>f s. f \<in> set fs \<Longrightarrow> g (snd (f s)) = g s"
  shows "g (snd (run_steps fs s)) = g s"
proof -
  have "g s = g (snd (run_steps fs s))"
    by (rule run_steps_related [where R = "\<lambda>a b. g a = g b"]) (simp_all add: assms)
  then show ?thesis by simp
qed

lemma run_steps_log_grows:
  assumes "\<And>f s. f \<in> set fs \<Longrightarrow> prefix (log s) (log (snd (f s)))"
  shows "prefix (log s) (log (snd (run_steps fs s)))"
  by (rule run_steps_related [where R = "\<lambda>a b. prefix (log a) (log b)"])
     (auto simp: assms intro: prefix_order.trans)

lemma run_steps_commute:
  "(\<And>f s. f \<in> set fs \<Longrightarrow> f (u s) = (fst (f s), u (snd (f s)))) \<Longrightarrow>
   run_steps fs (u s) = (fst (run_steps fs s), u (snd (run_steps fs s)))"
proof (induction fs arbitrary: s)
  case Nil
  then show ?case by simp
next
  case (Cons f fs)
  have h: "f (u s) = (fst (f s), u (snd (f s)))" using Cons.prems by simp
  have ih: "\<And>t. run_steps fs (u t) = (fst (run_steps fs t), u (snd (run_steps fs t)))"
    using Cons.IH Cons.prems by simp
  show ?case
    by (cases "f s"; cases "fst (f s)") (simp_all add: h ih)
qed

lemma run_steps_returns_with_error:
  "(\<And>f s. f \<in> set fs \<Longrightarrow> returns_with_error (f s)) \<Longrightarrow> returns_with_error (run_steps fs s)"
proof (induction fs arbitrary: s)
  case Nil
  show ?case by (simp add: returns_with_error_def)
next
  case (Cons f fs)
  have h: "returns_with_error (f s)" using Cons.prems by simp
  have ih: "\<And>t. returns_with_error (run_steps fs t)" using Cons.IH Cons.prems by simp
  show ?case
    using h ih by (cases "f s"; cases "fst (f s)") (simp_all add: returns_with_error_def)
qed

subsection \<open>What each block of \<open>configure\<close> leaves alone\<close>

lemma conf_set_frame:
  "info_level (snd (conf_set E k v s)) = info_level s"
  "pconf (snd (conf_set E k v s)) = pconf s"
  "exit_eof (snd (conf_set E k v s)) = exit_eof s"
  "consumed_topic (snd (conf_set E k v s)) = consumed_topic s"
  "published_topic (snd (conf_set E k v s)) = published_topic s"
  "partition (snd (conf_set E k v s)) = partition s"
  "qptr (snd (conf_set E k v s)) = qptr s"
  "log (snd (conf_set E k v s)) = log s"
  by (simp_all add: conf_set_def split: option.split)

lemma tconf_set_frame:
  "info_level (snd (tconf_set E k v s)) = info_level s"
  "pconf (snd (tconf_set E k v s)) = pconf s"
  "partition (snd (tconf_set E k v s)) = partition s"
  "log (snd (tconf_set E k v s)) = log s"
  by (simp_all add: tconf_set_def split: option.split)

lemma getEnvironmentVariable_frame:
  "info_level (snd (getEnvironmentVariable E n s)) = info_level s"
  "pconf (snd (getEnvironmentVariable E n s)) = pconf s"
  "exit_eof (snd (getEnvironmentVariable E n s)) = exit_eof s"
  "consumed_topic (snd (getEnvironmentVariable E n s)) = consumed_topic s"
  "published_topic (snd (getEnvironmentVariable E n s)) = published_topic s"
  "partition (snd (getEnvironmentVariable E n s)) = partition s"
  "qptr (snd (getEnvironmentVariable E n s)) = qptr s"
  by (simp_all add: getEnvironmentVariable_def logger_defs split: option.split)

lemma getEnvironmentVariable_log:
  "prefix (log s) (log (snd (getEnvironmentVariable E n s)))"
  by (simp add: getEnvironmentVariable_def logger_defs split: option.split)

lemma configure_log_level_frame:
  "pconf (snd (configure_log_level E s)) = pconf s"
  "partition (snd (configure_log_level E s)) = partition s"
  "fst (configure_log_level E s) = Continue"
  by (simp_all add: configure_log_level_def set_info_level_def logger_defs)

lemma read_config_line_frame:
  "info_level (read_config_line E s l) = info_level s"
  "partition (read_config_line E s l) = partition s"
  by (simp_all add: read_config_line_def Let_def split_beta logger_defs conf_set_frame
        tconf_set_frame)

lemma read_config_line_log:
  "prefix (log s) (log (read_config_line E s l))"
  by (simp add: read_config_line_def Let_def split_beta logger_defs conf_set_frame
        tconf_set_frame)

lemma foldl_read_frame:
  "info_level (foldl (read_config_line E) s ls) = info_level s"
  "partition (foldl (read_config_line E) s ls) = partition s"
  by (induction ls arbitrary: s) (simp_all add: read_config_line_frame)

lemma foldl_read_log:
  "prefix (log s) (log (foldl (read_config_line E) s ls))"
proof (induction ls arbitrary: s)
  case Nil
  show ?case by simp
next
  case (Cons l ls)
  have "prefix (log s) (log (read_config_line E s l))" by (rule read_config_line_log)
  also have "prefix \<dots> (log (foldl (read_config_line E) (read_config_line E s l) ls))"
    by (rule Cons.IH)
  finally show ?case by simp
qed

lemma configure_file_frame:
  "info_level (snd (configure_file E s)) = info_level s"
  "partition (snd (configure_file E s)) = partition s"
  by (simp_all add: configure_file_def Let_def logger_defs foldl_read_frame split: option.split)

lemma configure_file_fst:
  "fst (configure_file E s) = Continue \<or> fst (configure_file E s) = Return False"
  by (simp add: configure_file_def Let_def split: option.split)

lemma BuildGeofence_frame:
  "info_level (snd (BuildGeofence E s m)) = info_level s"
  "pconf (snd (BuildGeofence E s m)) = pconf s"
  "partition (snd (BuildGeofence E s m)) = partition s"
  by (simp_all add: BuildGeofence_def Let_def logger_defs case_prod_beta split: result.split)

lemma BuildGeofence_log:
  "prefix (log s) (log (snd (BuildGeofence E s m)))"
  by (simp add: BuildGeofence_def Let_def logger_defs case_prod_beta split: result.split)

lemma configure_mapfile_frame:
  "info_level (snd (configure_mapfile E s)) = info_level s"
  "pconf (snd (configure_mapfile E s)) = pconf s"
  "partition (snd (configure_mapfile E s)) = partition s"
  by (simp_all add: configure_mapfile_def logger_defs BuildGeofence_frame case_prod_beta
        split: option.split result.split)

lemma configure_broker_frame:
  "info_level (snd (configure_broker E s)) = info_level s"
  "pconf (snd (configure_broker E s)) = pconf s"
  "qptr (snd (configure_broker E s)) = qptr s"
  by (simp_all add: configure_broker_def logger_defs conf_set_frame)

lemma partition_setting_Returns:
  "partition_setting E s = Returns s1 \<Longrightarrow> \<exists>n. s1 = s\<lparr>partition := n\<rparr>"
proof (cases "optIsSet E CHR ''p''")
  case True
  assume "partition_setting E s = Returns s1"
  with True show ?thesis
    by (cases "optInt E CHR ''p''") (auto simp: partition_setting_def)
next
  case False
  assume r: "partition_setting E s = Returns s1"
  show ?thesis
  proof (cases "pconf s ''privacy.kafka.partition''")
    case None
    with False r have "s1 = s\<lparr>partition := partition s\<rparr>"
      by (simp add: partition_setting_def)
    then show ?thesis by blast
  next
    case (Some v)
    with False r show ?thesis
      by (cases "stoi v") (auto simp: partition_setting_def)
  qed
qed

lemma configure_partition_snd:
  "snd (configure_partition E s) = s
   \<or> (\<exists>n. snd (configure_partition E s) = s\<lparr>partition := n\<rparr>)
   \<or> (\<exists>n line. snd (configure_partition E s) = logger_info line (s\<lparr>partition := n\<rparr>))"
proof (cases "partition_setting E s")
  case (Returns s1)
  then obtain n where n: "s1 = s\<lparr>partition := n\<rparr>"
    using partition_setting_Returns by blast
  show ?thesis
  proof (cases "literal_plus ''kafka partition: '' (partition s1)")
    case None
    with Returns n have "snd (configure_partition E s) = s\<lparr>partition := n\<rparr>"
      by (simp add: configure_partition_def)
    then show ?thesis by blast
  next
    case (Some line)
    with Returns n
    have "snd (configure_partition E s) = logger_info line (s\<lparr>partition := n\<rparr>)"
      by (simp add: configure_partition_def)
    then show ?thesis by blast
  qed
qed (simp_all add: configure_partition_def)

lemma configure_partition_frame:
  "info_level (snd (configure_partition E s)) = info_level s"
  "pconf (snd (configure_partition E s)) = pconf s"
  "qptr (snd (configure_partition E s)) = qptr s"
  using configure_partition_snd [of E s] by (auto simp: logger_defs)

lemma configure_confluent_frame:
  "info_level (snd (configure_confluent E s)) = info_level s"
  "pconf (snd (configure_confluent E s)) = pconf s"
  "qptr (snd (configure_confluent E s)) = qptr s"
  "partition (snd (configure_confluent E s)) = partition s"
  by (simp_all add: configure_confluent_def Let_def case_prod_beta conf_set_frame
        getEnvironmentVariable_frame)

lemma configure_group_frame:
  "info_level (snd (configure_group E s)) = info_level s"
  "pconf (snd (configure_group E s)) = pconf s"
  "qptr (snd (configure_group E s)) = qptr s"
  "partition (snd (configure_group E s)) = partition s"
  by (simp_all add: configure_group_def logger_defs conf_set_def split: option.split)

lemma configure_offset_frame:
  "info_level (snd (configure_offset E s)) = info_level s"
  "pconf (snd (configure_offset E s)) = pconf s"
  "qptr (snd (configure_offset E s)) = qptr s"
  "partition (snd (configure_offset E s)) = partition s"
  by (simp_all add: configure_offset_def logger_defs Let_def)

lemma configure_exit_debug_frame:
  "info_level (snd (configure_exit_debug E s)) = info_level s"
  "pconf (snd (configure_exit_debug E s)) = pconf s"
  "qptr (snd (configure_exit_debug E s)) = qptr s"
  "partition (snd (configure_exit_debug E s)) = partition s"
  "exit_eof (snd (configure_exit_debug E s)) = optIsSet E CHR ''x''"
  by (simp_all add: configure_exit_debug_def logger_defs conf_set_def Let_def
        split: option.split)

lemma configure_consumed_topic_frame:
  "info_level (snd (configure_consumed_topic E s)) = info_level s"
  "pconf (snd (configure_consumed_topic E s)) = pconf s"
  "qptr (snd (configure_consumed_topic E s)) = qptr s"
  "partition (snd (configure_consumed_topic E s)) = partition s"
  "exit_eof (snd (configure_consumed_topic E s)) = exit_eof s"
  by (simp_all add: configure_consumed_topic_def logger_defs Let_def split: option.split)

lemma configure_published_topic_frame:
  "info_level (snd (configure_published_topic E s)) = info_level s"
  "pconf (snd (configure_published_topic E s)) = pconf s"
  "qptr (snd (configure_published_topic E s)) = qptr s"
  "partition (snd (configure_published_topic E s)) = partition s"
  "exit_eof (snd (configure_published_topic E s)) = exit_eof s"
  "consumed_topic (snd (configure_published_topic E s)) = consumed_topic s"
  by (simp_all add: configure_published_topic_def logger_defs Let_def split: option.split)

lemma configure_timeout_frame:
  "info_level (snd (configure_timeout E s)) = info_level s"
  "pconf (snd (configure_timeout E s)) = pconf s"
  "qptr (snd (configure_timeout E s)) = qptr s"
  "partition (snd (configure_timeout E s)) = partition s"
  "exit_eof (snd (configure_timeout E s)) = exit_eof s"
  "consumed_topic (snd (configure_timeout E s)) = consumed_topic s"
  "published_topic (snd (configure_timeout E s)) = published_topic s"
  by (simp_all add: configure_timeout_def logger_defs split: option.split result.split)

lemma finish_configure_frame:
  "info_level (snd (finish_configure r)) = info_level (snd r)"
  "pconf (snd (finish_configure r)) = pconf (snd r)"
  "qptr (snd (finish_configure r)) = qptr (snd r)"
  "partition (snd (finish_configure r)) = partition (snd r)"
  "exit_eof (snd (finish_configure r)) = exit_eof (snd r)"
  "consumed_topic (snd (finish_configure r)) = consumed_topic (snd r)"
  "published_topic (snd (finish_configure r)) = published_topic (snd r)"
  by (simp_all add: finish_configure_def logger_defs case_prod_beta split: step.split)

lemma finish_configure_log:
  "prefix (log (snd r)) (log (snd (finish_configure r)))"
  by (simp add: finish_configure_def logger_defs case_prod_beta split: step.split)

lemma finish_configure_True:
  "returns_with_error r \<Longrightarrow>
   finish_configure r = (Returns True, s') \<longleftrightarrow>
     (\<exists>s. r = (Continue, s) \<and> s' = logger_trace ''ending configure()'' s)"
  by (cases r; cases "fst r") (auto simp: finish_configure_def returns_with_error_def)

lemmas apply_frames = configure_mapfile_frame configure_broker_frame configure_partition_frame
  configure_confluent_frame configure_group_frame configure_offset_frame
  configure_exit_debug_frame configure_consumed_topic_frame configure_published_topic_frame
  configure_timeout_frame

lemma apply_info_level:
  "info_level (snd (run_steps (configure_apply E) s)) = info_level s"
proof (rule run_steps_frame)
  fix f s assume "f \<in> set (configure_apply E)"
  then show "info_level (snd (f s)) = info_level s"
    unfolding configure_apply_def by (auto simp: apply_frames)
qed

lemma apply_pconf:
  "pconf (snd (run_steps (configure_apply E) s)) = pconf s"
proof (rule run_steps_frame)
  fix f s assume "f \<in> set (configure_apply E)"
  then show "pconf (snd (f s)) = pconf s"
    unfolding configure_apply_def by (auto simp: apply_frames)
qed

lemma read_info_level:
  "info_level (snd (run_steps (configure_read E) s)) = info_level (snd (configure_log_level E s))"
  by (cases "configure_file E (snd (configure_log_level E s))";
      cases "fst (configure_file E (snd (configure_log_level E s)))")
     (use configure_file_frame(1) [of E "snd (configure_log_level E s)"]
      in \<open>simp_all add: configure_read_def configure_log_level_def\<close>)

lemma configure_info_level:
  "info_level (snd (configure E s)) = info_level (snd (configure_log_level E s))"
proof -
  have "info_level (snd (run_steps (configure_read E @ configure_apply E) s))
        = info_level (snd (run_steps (configure_read E) s))"
    by (cases "run_steps (configure_read E) s"; cases "fst (run_steps (configure_read E) s)")
       (simp_all add: run_steps_append apply_info_level)
  then show ?thesis
    by (simp add: configure_def finish_configure_frame read_info_level)
qed

subsection \<open>The log only grows, and \<open>return false\<close> follows an error line\<close>

lemma configure_log_level_log:
  "prefix (log s) (log (snd (configure_log_level E s)))"
  by (simp add: configure_log_level_def set_info_level_def logger_defs)

lemma foldl_read_log_trans:
  "prefix xs (log t) \<Longrightarrow> prefix xs (log (foldl (read_config_line E) t ls))"
  using foldl_read_log [of t E ls] by (rule prefix_order.trans [rotated])

lemma BuildGeofence_log_trans:
  "prefix xs (log t) \<Longrightarrow> prefix xs (log (snd (BuildGeofence E t m)))"
  using BuildGeofence_log [of t E m] by (rule prefix_order.trans [rotated])

lemma configure_file_log:
  "prefix (log s) (log (snd (configure_file E s)))"
  by (simp add: configure_file_def Let_def logger_defs foldl_read_log_trans split: option.split)

lemma configure_mapfile_log:
  "prefix (log s) (log (snd (configure_mapfile E s)))"
  by (simp add: configure_mapfile_def case_prod_beta logger_defs BuildGeofence_log_trans
        split: option.split result.split)

lemma configure_broker_log:
  "prefix (log s) (log (snd (configure_broker E s)))"
  by (simp add: configure_broker_def logger_defs conf_set_frame)

lemma configure_partition_log:
  "prefix (log s) (log (snd (configure_partition E s)))"
  using configure_partition_snd [of E s] by (auto simp: logger_defs)

lemma configure_confluent_log:
  "prefix (log s) (log (snd (configure_confluent E s)))"
proof -
  let ?a = "snd (getEnvironmentVariable E ''KAFKA_TYPE'' s)"
  let ?b = "snd (getEnvironmentVariable E ''CONFLUENT_KEY'' ?a)"
  let ?c = "snd (getEnvironmentVariable E ''CONFLUENT_SECRET'' ?b)"
  let ?d = "snd (getEnvironmentVariable E ''DOCKER_HOST_IP'' ?c)"
  have "prefix (log s) (log ?a)" by (rule getEnvironmentVariable_log)
  moreover have "prefix (log ?a) (log ?b)" by (rule getEnvironmentVariable_log)
  moreover have "prefix (log ?b) (log ?c)" by (rule getEnvironmentVariable_log)
  moreover have "prefix (log ?c) (log ?d)" by (rule getEnvironmentVariable_log)
  ultimately have "prefix (log s) (log ?a)" "prefix (log s) (log ?d)"
    by (auto intro: prefix_order.trans)
  then show ?thesis
    by (simp add: configure_confluent_def Let_def case_prod_beta conf_set_frame)
qed

lemma configure_group_log:
  "prefix (log s) (log (snd (configure_group E s)))"
  by (simp add: configure_group_def logger_defs conf_set_def split: option.split)

lemma configure_offset_log:
  "prefix (log s) (log (snd (configure_offset E s)))"
  by (simp add: configure_offset_def logger_defs Let_def)

lemma configure_exit_debug_log:
  "prefix (log s) (log (snd (configure_exit_debug E s)))"
  by (simp add: configure_exit_debug_def logger_defs conf_set_def Let_def split: option.split)

lemma configure_consumed_topic_log:
  "prefix (log s) (log (snd (configure_consumed_topic E s)))"
  by (simp add: configure_consumed_topic_def logger_defs Let_def split: option.split)

lemma configure_published_topic_log:
  "prefix (log s) (log (snd (configure_published_topic E s)))"
  by (simp add: configure_published_topic_def logger_defs Let_def split: option.split)

lemma configure_timeout_log:
  "prefix (log s) (log (snd (configure_timeout E s)))"
  by (simp add: configure_timeout_def logger_defs split: option.split result.split)

lemmas step_logs = configure_log_level_log configure_file_log configure_mapfile_log
  configure_broker_log configure_partition_log configure_confluent_log configure_group_log
  configure_offset_log configure_exit_debug_log configure_consumed_topic_log
  configure_published_topic_log configure_timeout_log

lemma configure_log_grows:
  "prefix (log (snd (configure_log_level E s))) (log (snd (configure E s)))"
proof -
  have "prefix (log t) (log (snd (run_steps (configure_file E # configure_apply E) t)))" for t
  proof (rule run_steps_log_grows)
    fix f s assume "f \<in> set (configure_file E # configure_apply E)"
    then show "prefix (log s) (log (snd (f s)))"
      unfolding configure_apply_def by (auto simp: step_logs)
  qed
  from this [of "snd (configure_log_level E s)"]
  have "prefix (log (snd (configure_log_level E s)))
          (log (snd (run_steps (configure_read E @ configure_apply E) s)))"
    by (simp add: configure_read_def configure_log_level_def)
  also have "prefix \<dots> (log (snd (configure E s)))"
    unfolding configure_def by (rule finish_configure_log)
  finally show ?thesis .
qed

lemma configure_file_returns:
  "returns_with_error (configure_file E s)"
  by (simp add: returns_with_error_def configure_file_def Let_def logger_defs split: option.split)

lemma configure_mapfile_returns:
  "returns_with_error (configure_mapfile E s)"
  by (simp add: returns_with_error_def configure_mapfile_def logger_defs case_prod_beta
        split: option.split result.split)

lemma configure_partition_returns:
  "returns_with_error (configure_partition E s)"
  by (simp add: returns_with_error_def configure_partition_def split: option.split result.split)

lemma configure_confluent_returns:
  "returns_with_error (configure_confluent E s)"
  by (simp add: returns_with_error_def configure_confluent_def Let_def case_prod_beta)

lemma configure_group_returns:
  "returns_with_error (configure_group E s)"
  by (simp add: returns_with_error_def configure_group_def logger_defs case_prod_beta
        split: option.split)

lemma configure_exit_debug_returns:
  "returns_with_error (configure_exit_debug E s)"
  by (simp add: returns_with_error_def configure_exit_debug_def logger_defs Let_def
        case_prod_beta split: option.split)

lemma configure_other_returns:
  "returns_with_error (configure_log_level E s)"
  "returns_with_error (configure_broker E s)"
  "returns_with_error (configure_offset E s)"
  "returns_with_error (configure_consumed_topic E s)"
  "returns_with_error (configure_published_topic E s)"
  "returns_with_error (configure_timeout E s)"
  by (simp_all add: returns_with_error_def configure_log_level_def configure_broker_def
        configure_offset_def configure_consumed_topic_def configure_published_topic_def
        configure_timeout_def logger_defs Let_def split: option.split result.split)

lemmas step_returns = configure_file_returns configure_mapfile_returns
  configure_partition_returns configure_confluent_returns configure_group_returns
  configure_exit_debug_returns configure_other_returns

lemma configure_steps_return:
  "returns_with_error (run_steps (configure_read E @ configure_apply E) s)"
proof (rule run_steps_returns_with_error)
  fix f s assume "f \<in> set (configure_read E @ configure_apply E)"
  then show "returns_with_error (f s)"
    unfolding configure_read_def configure_apply_def by (auto simp: step_returns)
qed

lemma configure_True:
  "configure E s = (Returns True, s') \<longleftrightarrow>
     (\<exists>s0 s1. run_steps (configure_read E) s = (Continue, s0)
        \<and> run_steps (configure_apply E) s0 = (Continue, s1)
        \<and> s' = logger_trace ''ending configure()'' s1)"
  unfolding configure_def
  by (auto simp: finish_configure_True [OF configure_steps_return] run_steps_Continue_append)

lemma run_steps_Continue_mid:
  "run_steps (A @ f # B) s = (Continue, s') \<longleftrightarrow>
     (\<exists>sa sb. run_steps A s = (Continue, sa) \<and> f sa = (Continue, sb)
        \<and> run_steps B sb = (Continue, s'))"
proof -
  have "run_steps (f # B) t = (Continue, s') \<longleftrightarrow>
          (\<exists>sb. f t = (Continue, sb) \<and> run_steps B sb = (Continue, s'))" for t
    by (cases "f t"; cases "fst (f t)") auto
  then show ?thesis by (simp add: run_steps_Continue_append)
qed

lemma configure_returns_False:
  "fst (configure E s) = Returns b \<Longrightarrow>
     \<not> b \<or> fst (run_steps (configure_read E @ configure_apply E) s) = Continue"
  using configure_steps_return [of E s]
  by (cases "run_steps (configure_read E @ configure_apply E) s";
      cases "fst (run_steps (configure_read E @ configure_apply E) s)")
     (auto simp: configure_def finish_configure_def returns_with_error_def)

subsection \<open>The claims about the log level and the end of a partition\<close>

lemma configure_exit_eof:
  assumes "fst (configure E s) = Returns True"
  shows "exit_eof (snd (configure E s)) = optIsSet E CHR ''x''"
proof -
  from assms have "configure E s = (Returns True, snd (configure E s))"
    by (simp add: prod_eq_iff)
  then obtain s0 s1 where a: "run_steps (configure_apply E) s0 = (Continue, s1)"
    and s': "snd (configure E s) = logger_trace ''ending configure()'' s1"
    unfolding configure_True by blast
  have split: "configure_apply E =
      [configure_mapfile E, configure_broker E, configure_partition E, configure_confluent E,
       configure_group E, configure_offset E]
      @ configure_exit_debug E
      # [configure_consumed_topic E, configure_published_topic E, configure_timeout E]"
    by (simp add: configure_apply_def)
  from a obtain sa sb where b: "configure_exit_debug E sa = (Continue, sb)"
    and c: "run_steps [configure_consumed_topic E, configure_published_topic E,
               configure_timeout E] sb = (Continue, s1)"
    unfolding split run_steps_Continue_mid by blast
  have "exit_eof (snd (run_steps [configure_consumed_topic E, configure_published_topic E,
               configure_timeout E] sb)) = exit_eof sb"
  proof (rule run_steps_frame)
    fix f s assume "f \<in> set [configure_consumed_topic E, configure_published_topic E,
               configure_timeout E]"
    then show "exit_eof (snd (f s)) = exit_eof s" by (auto simp: apply_frames)
  qed
  with c have "exit_eof s1 = exit_eof sb" by simp
  moreover have "exit_eof sb = optIsSet E CHR ''x''"
    using configure_exit_debug_frame(5) [of E sa] b by simp
  ultimately show ?thesis by (simp add: s' logger_trace_def)
qed

lemmas configure_defs =
  configure_def configure_read_def configure_apply_def finish_configure_def
  configure_log_level_def configure_file_def read_config_line_def configure_mapfile_def
  configure_broker_def configure_partition_def configure_confluent_def configure_group_def
  configure_offset_def configure_exit_debug_def configure_consumed_topic_def
  configure_published_topic_def configure_timeout_def set_info_level_def conf_set_def
  tconf_set_def BuildGeofence_def stod_setting_def getEnvironmentVariable_def stoi_def
  parse_integer_def isspace_def isdigit_def digits_value_def literal_plus_def
  partition_setting_def

lemmas example_env_defs =
  example_env_def example_file_def example_cli_def example_strip_def PPM_def
  PARTITION_UA_def OFFSET_BEGINNING_def

text \<open>
  C8, the log levels collapse. After \<open>configure\<close> the information-log level is: the trace
  level for each of the option values \<open>trace\<close>, \<open>debug\<close> and \<open>info\<close>; the warn, error,
  critical and off level for \<open>warning\<close>, \<open>error\<close>, \<open>critical\<close> and \<open>off\<close>, five levels
  that differ from one another; and the level it was before when the option is absent or
  has any other value, in which case the first thing \<open>configure\<close> does is log the warning.
\<close>

theorem log_level_collapsing:
  "info_level (snd (configure E s)) =
     (if \<not> optIsSet E CHR ''v'' then info_level s
      else if optString E CHR ''v'' = ''trace'' \<or> optString E CHR ''v'' = ''debug''
              \<or> optString E CHR ''v'' = ''info'' then trace
      else if optString E CHR ''v'' = ''warning'' then warn
      else if optString E CHR ''v'' = ''error'' then err_level
      else if optString E CHR ''v'' = ''critical'' then critical
      else if optString E CHR ''v'' = ''off'' then off
      else info_level s)
   \<and> (optIsSet E CHR ''v''
        \<and> optString E CHR ''v'' \<notin> set [''trace'', ''debug'', ''info'', ''warning'', ''error'',
                                           ''critical'', ''off'']
      \<longrightarrow> prefix (log s @ [(warn,
               ''information logger level was configured but unreadable; using default.'')])
             (log (snd (configure E s))))
   \<and> distinct [trace, warn, err_level, critical, off]"
proof -
  have a: "info_level (snd (configure_log_level E s)) =
     (if \<not> optIsSet E CHR ''v'' then info_level s
      else if optString E CHR ''v'' = ''trace'' \<or> optString E CHR ''v'' = ''debug''
              \<or> optString E CHR ''v'' = ''info'' then trace
      else if optString E CHR ''v'' = ''warning'' then warn
      else if optString E CHR ''v'' = ''error'' then err_level
      else if optString E CHR ''v'' = ''critical'' then critical
      else if optString E CHR ''v'' = ''off'' then off
      else info_level s)"
    by (auto simp: configure_log_level_def set_info_level_def logger_warn_def)
  have b: "log (snd (configure_log_level E s)) = log s @ [(warn,
               ''information logger level was configured but unreadable; using default.'')]"
    if "optIsSet E CHR ''v''"
      and "optString E CHR ''v'' \<notin> set [''trace'', ''debug'', ''info'', ''warning'', ''error'',
                                           ''critical'', ''off'']"
    using that by (auto simp: configure_log_level_def logger_warn_def)
  have c: "prefix (log s @ [(warn,
               ''information logger level was configured but unreadable; using default.'')])
             (log (snd (configure E s)))"
    if "optIsSet E CHR ''v''"
      and "optString E CHR ''v'' \<notin> set [''trace'', ''debug'', ''info'', ''warning'', ''error'',
                                           ''critical'', ''off'']"
    using configure_log_grows [of E s] b [OF that] by simp
  have d: "distinct [trace, warn, err_level, critical, off]" by simp
  from a c d show ?thesis unfolding configure_info_level by blast
qed

theorem log_level_collapsing_witness:
  "optIsSet (example_env example_file (example_cli(CHR ''v'' \<mapsto> ''verbose''))) CHR ''v''
   \<and> optString (example_env example_file (example_cli(CHR ''v'' \<mapsto> ''verbose''))) CHR ''v''
       \<notin> set [''trace'', ''debug'', ''info'', ''warning'', ''error'', ''critical'', ''off'']
   \<and> info_level (snd (configure (example_env example_file (example_cli(CHR ''v'' \<mapsto> ''verbose'')))
        (PPM info))) = info
   \<and> prefix [(warn, ''information logger level was configured but unreadable; using default.'')]
        (log (snd (configure (example_env example_file (example_cli(CHR ''v'' \<mapsto> ''verbose'')))
           (PPM info))))
   \<and> info_level (snd (configure (example_env example_file example_cli) (PPM info))) = trace"
  using log_level_collapsing [of "example_env example_file (example_cli(CHR ''v'' \<mapsto> ''verbose''))"
          "PPM info"]
        log_level_collapsing [of "example_env example_file example_cli" "PPM info"]
  by (simp add: example_env_def example_cli_def PPM_def)

text \<open>
  C3, the end of a partition. For a message whose error code is partition-EOF,
  \<open>msg_consume\<close> returns false; the EOF count is one more exactly when \<open>exit_eof\<close> is set;
  \<open>bsms_available\<close> becomes false exactly when \<open>exit_eof\<close> is set and the incremented count
  equals the partition count, and stays as it was otherwise; with \<open>exit_eof\<close> set nothing
  but the log, the EOF count and \<open>bsms_available\<close> changes, and with \<open>exit_eof\<close> not set
  nothing but the log. When the flag goes down the consume-produce loop ends with that
  pass. \<open>exit_eof\<close> is what \<open>configure\<close> made of the option \<open>x\<close>.
\<close>

theorem partition_eof_handling:
  assumes "err message = ERR__PARTITION_EOF"
  shows "\<not> fst (msg_consume s message h)
    \<and> eof_cnt (snd (msg_consume s message h))
        = (if exit_eof s then eof_cnt s + 1 else eof_cnt s)
    \<and> bsms_available (snd (msg_consume s message h))
        = (bsms_available s \<and> \<not> (exit_eof s \<and> eof_cnt s + 1 = partition_cnt s))
    \<and> (\<not> exit_eof s \<longrightarrow>
         snd (msg_consume s message h) = s\<lparr>log := log s @
           [(info, ''ODE BSM consumer partition end of file, but PPM still alive.'')]\<rparr>)
    \<and> (exit_eof s \<longrightarrow>
         (snd (msg_consume s message h))\<lparr>log := [], eof_cnt := 0, bsms_available := True\<rparr>
           = s\<lparr>log := [], eof_cnt := 0, bsms_available := True\<rparr>)
    \<and> (bsms_available s \<and> exit_eof s \<and> eof_cnt s + 1 = partition_cnt s
         \<and> consumed it = message \<longrightarrow>
         consume_produce_loop E s (it # its) = Some (consume_produce_iteration E s it))
    \<and> (fst (configure E s0) = Returns True \<longrightarrow>
         exit_eof (snd (configure E s0)) = optIsSet E CHR ''x'')"
proof -
  have m: "\<not> fst (msg_consume s message h)"
       "eof_cnt (snd (msg_consume s message h))
          = (if exit_eof s then eof_cnt s + 1 else eof_cnt s)"
       "bsms_available (snd (msg_consume s message h))
          = (bsms_available s \<and> \<not> (exit_eof s \<and> eof_cnt s + 1 = partition_cnt s))"
    using assms by (simp_all add: msg_consume_def logger_info_def Let_def)
  have n: "\<not> exit_eof s \<Longrightarrow>
         snd (msg_consume s message h) = s\<lparr>log := log s @
           [(info, ''ODE BSM consumer partition end of file, but PPM still alive.'')]\<rparr>"
    using assms by (simp add: msg_consume_def logger_info_def Let_def)
  have x: "exit_eof s \<Longrightarrow>
         (snd (msg_consume s message h))\<lparr>log := [], eof_cnt := 0, bsms_available := True\<rparr>
           = s\<lparr>log := [], eof_cnt := 0, bsms_available := True\<rparr>"
    using assms by (simp add: msg_consume_def logger_info_def Let_def)
  have l: "consume_produce_loop E s (it # its) = Some (consume_produce_iteration E s it)"
    if "bsms_available s" "exit_eof s" "eof_cnt s + 1 = partition_cnt s" "consumed it = message"
  proof -
    have "\<not> bsms_available (consume_produce_iteration E s it)"
      using that assms by (simp add: iteration_unfold msg_consume_def logger_info_def Let_def)
    with that(1) show ?thesis
      by (simp add: consume_produce_loop_def run_stopped)
  qed
  from m n x l configure_exit_eof [of E s0] show ?thesis by blast
qed

theorem partition_eof_handling_witness:
  "err (example_message ERR__PARTITION_EOF []) = ERR__PARTITION_EOF
   \<and> exit_eof (PPM info :: nat ppm) \<and> bsms_available (PPM info :: nat ppm)
   \<and> eof_cnt (PPM info :: nat ppm) + 1 = partition_cnt (PPM info :: nat ppm)
   \<and> eof_cnt (snd (msg_consume (PPM info :: nat ppm) (example_message ERR__PARTITION_EOF [])
        example_handler)) = 1
   \<and> \<not> bsms_available (snd (msg_consume (PPM info :: nat ppm)
        (example_message ERR__PARTITION_EOF []) example_handler))
   \<and> \<not> exit_eof ((PPM info :: nat ppm)\<lparr>exit_eof := False\<rparr>)
   \<and> snd (msg_consume ((PPM info :: nat ppm)\<lparr>exit_eof := False\<rparr>)
        (example_message ERR__PARTITION_EOF []) example_handler)
       = (PPM info)\<lparr>exit_eof := False, log :=
           [(info, ''ODE BSM consumer partition end of file, but PPM still alive.'')]\<rparr>
   \<and> consume_produce_loop (example_env example_file example_cli) (PPM info)
        [example_iteration ERR__PARTITION_EOF [] ERR_NO_ERROR,
         example_iteration ERR_NO_ERROR ''keep'' ERR_NO_ERROR]
       = Some (consume_produce_iteration (example_env example_file example_cli) (PPM info)
                 (example_iteration ERR__PARTITION_EOF [] ERR_NO_ERROR))
   \<and> fst (configure (example_env example_file example_cli) (PPM info)) = Returns True
   \<and> exit_eof (snd (configure (example_env example_file example_cli) (PPM info)))"
proof -
  have c: "fst (configure (example_env example_file example_cli) (PPM info)) = Returns True"
    by (simp add: configure_defs example_env_defs logger_defs Let_def)
  show ?thesis
    using c
      partition_eof_handling [of "example_message ERR__PARTITION_EOF []" "PPM info :: nat ppm"
        example_handler "example_iteration ERR__PARTITION_EOF [] ERR_NO_ERROR"
        "example_env example_file example_cli"
        "[example_iteration ERR_NO_ERROR ''keep'' ERR_NO_ERROR]" "PPM info"]
      partition_eof_handling [of "example_message ERR__PARTITION_EOF []"
        "(PPM info :: nat ppm)\<lparr>exit_eof := False\<rparr>" example_handler
        "example_iteration ERR__PARTITION_EOF [] ERR_NO_ERROR"
        "example_env example_file example_cli" "[]" "PPM info"]
    by (simp add: example_defs example_env_def example_cli_def PPM_def)
qed

subsection \<open>One entry of \<open>pconf\<close> and the blocks that do not read it\<close>

lemma conf_set_with:
  "conf_set E a b (with_setting k v s)
     = (fst (conf_set E a b s), with_setting k v (snd (conf_set E a b s)))"
  by (simp add: conf_set_def with_setting_def split: option.split)

lemma getEnvironmentVariable_with:
  "getEnvironmentVariable E n (with_setting k v s)
     = (fst (getEnvironmentVariable E n s),
        with_setting k v (snd (getEnvironmentVariable E n s)))"
  by (simp add: getEnvironmentVariable_def with_setting_def logger_defs split: option.split)

lemma logger_with:
  "logger_info t (with_setting k v s) = with_setting k v (logger_info t s)"
  "logger_error t (with_setting k v s) = with_setting k v (logger_error t s)"
  "logger_trace t (with_setting k v s) = with_setting k v (logger_trace t s)"
  by (simp_all add: with_setting_def logger_defs)

lemma stod_setting_with:
  "k' \<noteq> k \<Longrightarrow> stod_setting E (with_setting k v s) k' = stod_setting E s k'"
  by (simp add: stod_setting_def with_setting_def)

lemma BuildGeofence_with:
  assumes "k \<notin> set [''privacy.filter.geofence.sw.lat'', ''privacy.filter.geofence.sw.lon'',
                     ''privacy.filter.geofence.ne.lat'', ''privacy.filter.geofence.ne.lon'']"
  shows "BuildGeofence E (with_setting k v s) m
           = (fst (BuildGeofence E s m), with_setting k v (snd (BuildGeofence E s m)))"
proof -
  have k: "''privacy.filter.geofence.sw.lat'' \<noteq> k" "''privacy.filter.geofence.sw.lon'' \<noteq> k"
          "''privacy.filter.geofence.ne.lat'' \<noteq> k" "''privacy.filter.geofence.ne.lon'' \<noteq> k"
    using assms by auto
  have l: "stod_setting E (logger_trace t s) k' = stod_setting E s k'" for t k'
    by (simp add: stod_setting_def logger_trace_def)
  show ?thesis
    by (simp add: BuildGeofence_def Let_def logger_with stod_setting_with [OF k(1)]
          stod_setting_with [OF k(2)] stod_setting_with [OF k(3)] stod_setting_with [OF k(4)]
          l case_prod_beta split: result.split)
qed

lemma mapfile_with:
  assumes "k \<notin> set [''privacy.filter.geofence.sw.lat'', ''privacy.filter.geofence.sw.lon'',
                     ''privacy.filter.geofence.ne.lat'', ''privacy.filter.geofence.ne.lon'']"
    and "optIsSet E CHR ''m'' \<or> k \<noteq> ''privacy.filter.geofence.mapfile''"
  shows "configure_mapfile E (with_setting k v s)
           = (fst (configure_mapfile E s), with_setting k v (snd (configure_mapfile E s)))"
proof -
  have p: "(if optIsSet E CHR ''m'' then Some (optString E CHR ''m'')
            else pconf (with_setting k v s) ''privacy.filter.geofence.mapfile'')
         = (if optIsSet E CHR ''m'' then Some (optString E CHR ''m'')
            else pconf s ''privacy.filter.geofence.mapfile'')"
    using assms(2) by (auto simp: with_setting_def)
  have q: "(with_setting k v t)\<lparr>qptr := x\<rparr> = with_setting k v (t\<lparr>qptr := x\<rparr>)" for t x
    by (simp add: with_setting_def)
  show ?thesis
    unfolding configure_mapfile_def p
    by (simp add: logger_with BuildGeofence_with [OF assms(1)] q case_prod_beta
          split: option.split result.split)
qed

lemma broker_with:
  "configure_broker E (with_setting k v s)
     = (fst (configure_broker E s), with_setting k v (snd (configure_broker E s)))"
  by (simp add: configure_broker_def logger_with conf_set_with)

lemma partition_setting_with:
  assumes "optIsSet E CHR ''p'' \<or> k \<noteq> ''privacy.kafka.partition''"
  shows "partition_setting E (with_setting k v s)
           = (case partition_setting E s of
                Returns s1 \<Rightarrow> Returns (with_setting k v s1)
              | Throws e \<Rightarrow> Throws e
              | Undefined_behaviour \<Rightarrow> Undefined_behaviour)"
proof (cases "optIsSet E CHR ''p''")
  case True
  then show ?thesis
    by (cases "optInt E CHR ''p''") (simp_all add: partition_setting_def with_setting_def)
next
  case False
  with assms have k: "k \<noteq> ''privacy.kafka.partition''" by simp
  show ?thesis
  proof (cases "pconf s ''privacy.kafka.partition''")
    case None
    with False k show ?thesis
      by (simp add: partition_setting_def with_setting_def)
  next
    case (Some a)
    with False k show ?thesis
      by (cases "stoi a") (simp_all add: partition_setting_def with_setting_def)
  qed
qed

lemma partition_with:
  assumes "optIsSet E CHR ''p'' \<or> k \<noteq> ''privacy.kafka.partition''"
  shows "configure_partition E (with_setting k v s)
           = (fst (configure_partition E s), with_setting k v (snd (configure_partition E s)))"
proof (cases "partition_setting E s")
  case (Returns s1)
  have p: "partition (with_setting k v s1) = partition s1"
    by (simp add: with_setting_def)
  show ?thesis
    by (cases "literal_plus ''kafka partition: '' (partition s1)")
       (simp_all add: configure_partition_def partition_setting_with [OF assms] Returns p
          logger_with)
next
  case (Throws e)
  then show ?thesis
    by (simp add: configure_partition_def partition_setting_with [OF assms])
next
  case Undefined_behaviour
  then show ?thesis
    by (simp add: configure_partition_def partition_setting_with [OF assms])
qed

lemma confluent_with:
  "configure_confluent E (with_setting k v s)
     = (fst (configure_confluent E s), with_setting k v (snd (configure_confluent E s)))"
  by (simp add: configure_confluent_def Let_def case_prod_beta getEnvironmentVariable_with
        conf_set_with)

lemma group_with:
  "configure_group E (with_setting k v s)
     = (fst (configure_group E s), with_setting k v (snd (configure_group E s)))"
  by (simp add: configure_group_def conf_set_with logger_with case_prod_beta split: option.split)

lemma offset_with:
  "configure_offset E (with_setting k v s)
     = (fst (configure_offset E s), with_setting k v (snd (configure_offset E s)))"
  by (simp add: configure_offset_def Let_def with_setting_def logger_defs)

lemma exit_debug_with:
  "configure_exit_debug E (with_setting k v s)
     = (fst (configure_exit_debug E s), with_setting k v (snd (configure_exit_debug E s)))"
  by (simp add: configure_exit_debug_def Let_def with_setting_def logger_defs conf_set_def
        case_prod_beta split: option.split)

lemma consumed_with:
  "optIsSet E CHR ''u'' \<or> k \<noteq> ''privacy.topic.consumer'' \<Longrightarrow>
   configure_consumed_topic E (with_setting k v s)
     = (fst (configure_consumed_topic E s),
        with_setting k v (snd (configure_consumed_topic E s)))"
  by (auto simp add: configure_consumed_topic_def with_setting_def logger_defs Let_def
        split: option.split)

lemma published_with:
  "optIsSet E CHR ''f'' \<or> k \<noteq> ''privacy.topic.producer'' \<Longrightarrow>
   configure_published_topic E (with_setting k v s)
     = (fst (configure_published_topic E s),
        with_setting k v (snd (configure_published_topic E s)))"
  by (auto simp add: configure_published_topic_def with_setting_def logger_defs Let_def
        split: option.split)

lemma timeout_with:
  "k \<noteq> ''privacy.consumer.timeout.ms'' \<Longrightarrow>
   configure_timeout E (with_setting k v s)
     = (fst (configure_timeout E s), with_setting k v (snd (configure_timeout E s)))"
  by (simp add: configure_timeout_def with_setting_def logger_defs
        split: option.split result.split)

lemma apply_with:
  assumes "k \<notin> set [''privacy.filter.geofence.sw.lat'', ''privacy.filter.geofence.sw.lon'',
                     ''privacy.filter.geofence.ne.lat'', ''privacy.filter.geofence.ne.lon'']"
    and "k \<noteq> ''privacy.consumer.timeout.ms''"
    and "optIsSet E CHR ''m'' \<or> k \<noteq> ''privacy.filter.geofence.mapfile''"
    and "optIsSet E CHR ''p'' \<or> k \<noteq> ''privacy.kafka.partition''"
    and "optIsSet E CHR ''u'' \<or> k \<noteq> ''privacy.topic.consumer''"
    and "optIsSet E CHR ''f'' \<or> k \<noteq> ''privacy.topic.producer''"
  shows "run_steps (configure_apply E) (with_setting k v s)
           = (fst (run_steps (configure_apply E) s),
              with_setting k v (snd (run_steps (configure_apply E) s)))"
proof (rule run_steps_commute)
  fix f s assume "f \<in> set (configure_apply E)"
  then consider "f = configure_mapfile E" | "f = configure_broker E"
    | "f = configure_partition E" | "f = configure_confluent E" | "f = configure_group E"
    | "f = configure_offset E" | "f = configure_exit_debug E"
    | "f = configure_consumed_topic E" | "f = configure_published_topic E"
    | "f = configure_timeout E"
    unfolding configure_apply_def by auto
  then show "f (with_setting k v s) = (fst (f s), with_setting k v (snd (f s)))"
  proof cases
    case 1 then show ?thesis by (simp add: mapfile_with [OF assms(1) assms(3)])
  next
    case 2 then show ?thesis by (simp add: broker_with)
  next
    case 3 then show ?thesis by (simp add: partition_with [OF assms(4)])
  next
    case 4 then show ?thesis by (simp add: confluent_with)
  next
    case 5 then show ?thesis by (simp add: group_with)
  next
    case 6 then show ?thesis by (simp add: offset_with)
  next
    case 7 then show ?thesis by (simp add: exit_debug_with)
  next
    case 8 then show ?thesis by (simp add: consumed_with [OF assms(5)])
  next
    case 9 then show ?thesis by (simp add: published_with [OF assms(6)])
  next
    case 10 then show ?thesis by (simp add: timeout_with [OF assms(2)])
  qed
qed

subsection \<open>What \<open>configure\<close> settles\<close>

lemma mapfile_Continue:
  assumes "configure_mapfile E sa = (Continue, sb)"
  shows "\<exists>m q. (if optIsSet E CHR ''m'' then m = optString E CHR ''m''
                else pconf sa ''privacy.filter.geofence.mapfile'' = Some m)
          \<and> fst (BuildGeofence E (logger_info (''ppm mapfile: '' @ m) sa) m) = Returns q
          \<and> qptr sb = Some q"
proof (cases "if optIsSet E CHR ''m'' then Some (optString E CHR ''m'')
              else pconf sa ''privacy.filter.geofence.mapfile''")
  case None
  with assms show ?thesis by (simp add: configure_mapfile_def)
next
  case (Some m)
  show ?thesis
  proof (cases "fst (BuildGeofence E (logger_info (''ppm mapfile: '' @ m) sa) m)")
    case (Throws e)
    with assms Some show ?thesis by (simp add: configure_mapfile_def case_prod_beta)
  next
    case Undefined_behaviour
    with assms Some show ?thesis by (simp add: configure_mapfile_def case_prod_beta)
  next
    case (Returns q)
    with assms Some have "qptr sb = Some q"
      by (auto simp: configure_mapfile_def case_prod_beta)
    with Some Returns show ?thesis by (auto split: if_splits)
  qed
qed

lemma partition_setting_value:
  assumes "partition_setting E sa = Returns s1"
  shows "if optIsSet E CHR ''p'' then optInt E CHR ''p'' = Returns (partition s1)
         else (case pconf sa ''privacy.kafka.partition'' of
                 Some v \<Rightarrow> stoi v = Returns (partition s1)
               | None \<Rightarrow> partition s1 = partition sa)"
proof (cases "optIsSet E CHR ''p''")
  case True
  with assms show ?thesis
    by (cases "optInt E CHR ''p''") (auto simp: partition_setting_def)
next
  case False
  show ?thesis
  proof (cases "pconf sa ''privacy.kafka.partition''")
    case None
    with assms False show ?thesis by (auto simp: partition_setting_def)
  next
    case (Some v)
    with assms False show ?thesis
      by (cases "stoi v") (auto simp: partition_setting_def)
  qed
qed

lemma partition_Continue:
  assumes "configure_partition E sa = (Continue, sb)"
  shows "if optIsSet E CHR ''p'' then optInt E CHR ''p'' = Returns (partition sb)
         else (case pconf sa ''privacy.kafka.partition'' of
                 Some v \<Rightarrow> stoi v = Returns (partition sb)
               | None \<Rightarrow> partition sb = partition sa)"
proof (cases "partition_setting E sa")
  case (Returns s1)
  show ?thesis
  proof (cases "literal_plus ''kafka partition: '' (partition s1)")
    case None
    with assms Returns show ?thesis by (simp add: configure_partition_def)
  next
    case (Some line)
    with assms Returns have "sb = logger_info line s1"
      by (simp add: configure_partition_def)
    then have "partition sb = partition s1" by (simp add: logger_defs)
    with partition_setting_value [OF Returns] show ?thesis
      by (auto split: if_splits option.splits)
  qed
next
  case (Throws e)
  with assms show ?thesis by (simp add: configure_partition_def)
next
  case Undefined_behaviour
  with assms show ?thesis by (simp add: configure_partition_def)
qed

lemma consumed_Continue:
  assumes "configure_consumed_topic E sa = (Continue, sb)"
  shows "if optIsSet E CHR ''u'' then consumed_topic sb = optString E CHR ''u''
         else pconf sa ''privacy.topic.consumer'' = Some (consumed_topic sb)"
  using assms
  by (auto simp: configure_consumed_topic_def logger_defs Let_def split: option.splits if_splits)

lemma published_Continue:
  assumes "configure_published_topic E sa = (Continue, sb)"
  shows "if optIsSet E CHR ''f'' then published_topic sb = optString E CHR ''f''
         else pconf sa ''privacy.topic.producer'' = Some (published_topic sb)"
  using assms
  by (auto simp: configure_published_topic_def logger_defs Let_def split: option.splits if_splits)

lemma read_partition:
  "partition (snd (run_steps (configure_read E) s)) = partition s"
proof (rule run_steps_frame)
  fix f s assume "f \<in> set (configure_read E)"
  then show "partition (snd (f s)) = partition s"
    unfolding configure_read_def by (auto simp: configure_log_level_frame configure_file_frame)
qed

lemma apply_splits:
  "configure_apply E = [] @ configure_mapfile E #
      [configure_broker E, configure_partition E, configure_confluent E, configure_group E,
       configure_offset E, configure_exit_debug E, configure_consumed_topic E,
       configure_published_topic E, configure_timeout E]"
  "configure_apply E = [configure_mapfile E, configure_broker E] @ configure_partition E #
      [configure_confluent E, configure_group E, configure_offset E, configure_exit_debug E,
       configure_consumed_topic E, configure_published_topic E, configure_timeout E]"
  "configure_apply E =
      [configure_mapfile E, configure_broker E, configure_partition E, configure_confluent E,
       configure_group E, configure_offset E, configure_exit_debug E]
      @ configure_consumed_topic E # [configure_published_topic E, configure_timeout E]"
  "configure_apply E =
      [configure_mapfile E, configure_broker E, configure_partition E, configure_confluent E,
       configure_group E, configure_offset E, configure_exit_debug E, configure_consumed_topic E]
      @ configure_published_topic E # [configure_timeout E]"
  by (simp_all add: configure_apply_def)

lemma apply_mapfile:
  assumes "run_steps (configure_apply E) s0 = (Continue, s1)"
  shows "\<exists>m q. (if optIsSet E CHR ''m'' then m = optString E CHR ''m''
                else pconf s0 ''privacy.filter.geofence.mapfile'' = Some m)
          \<and> fst (BuildGeofence E (logger_info (''ppm mapfile: '' @ m) s0) m) = Returns q
          \<and> qptr s1 = Some q"
proof -
  let ?B = "[configure_broker E, configure_partition E, configure_confluent E,
             configure_group E, configure_offset E, configure_exit_debug E,
             configure_consumed_topic E, configure_published_topic E, configure_timeout E]"
  from assms obtain sb where f: "configure_mapfile E s0 = (Continue, sb)"
    and B: "run_steps ?B sb = (Continue, s1)"
    unfolding apply_splits(1) run_steps_Continue_mid by auto
  have "qptr (snd (run_steps ?B sb)) = qptr sb"
  proof (rule run_steps_frame)
    fix f s assume "f \<in> set ?B"
    then show "qptr (snd (f s)) = qptr s" by (auto simp: apply_frames)
  qed
  with B have "qptr s1 = qptr sb" by simp
  with mapfile_Continue [OF f] show ?thesis by simp
qed

lemma apply_partition:
  assumes "run_steps (configure_apply E) s0 = (Continue, s1)"
  shows "if optIsSet E CHR ''p'' then optInt E CHR ''p'' = Returns (partition s1)
         else (case pconf s0 ''privacy.kafka.partition'' of
                 Some v \<Rightarrow> stoi v = Returns (partition s1)
               | None \<Rightarrow> partition s1 = partition s0)"
proof -
  let ?A = "[configure_mapfile E, configure_broker E]"
  let ?B = "[configure_confluent E, configure_group E, configure_offset E,
             configure_exit_debug E, configure_consumed_topic E, configure_published_topic E,
             configure_timeout E]"
  from assms obtain sa sb where A: "run_steps ?A s0 = (Continue, sa)"
    and f: "configure_partition E sa = (Continue, sb)"
    and B: "run_steps ?B sb = (Continue, s1)"
    unfolding apply_splits(2) run_steps_Continue_mid by blast
  have "pconf (snd (run_steps ?A s0)) = pconf s0"
  proof (rule run_steps_frame)
    fix f s assume "f \<in> set ?A"
    then show "pconf (snd (f s)) = pconf s" by (auto simp: apply_frames)
  qed
  with A have p: "pconf sa = pconf s0" by simp
  have "partition (snd (run_steps ?A s0)) = partition s0"
  proof (rule run_steps_frame)
    fix f s assume "f \<in> set ?A"
    then show "partition (snd (f s)) = partition s"
      by (auto simp: configure_mapfile_frame configure_broker_def logger_defs conf_set_frame)
  qed
  with A have q: "partition sa = partition s0" by simp
  have "partition (snd (run_steps ?B sb)) = partition sb"
  proof (rule run_steps_frame)
    fix f s assume "f \<in> set ?B"
    then show "partition (snd (f s)) = partition s" by (auto simp: apply_frames)
  qed
  with B have "partition s1 = partition sb" by simp
  with partition_Continue [OF f] p q show ?thesis by (auto split: if_splits option.splits)
qed

lemma apply_consumed:
  assumes "run_steps (configure_apply E) s0 = (Continue, s1)"
  shows "if optIsSet E CHR ''u'' then consumed_topic s1 = optString E CHR ''u''
         else pconf s0 ''privacy.topic.consumer'' = Some (consumed_topic s1)"
proof -
  let ?A = "[configure_mapfile E, configure_broker E, configure_partition E,
             configure_confluent E, configure_group E, configure_offset E,
             configure_exit_debug E]"
  let ?B = "[configure_published_topic E, configure_timeout E]"
  from assms obtain sa sb where A: "run_steps ?A s0 = (Continue, sa)"
    and f: "configure_consumed_topic E sa = (Continue, sb)"
    and B: "run_steps ?B sb = (Continue, s1)"
    unfolding apply_splits(3) run_steps_Continue_mid by blast
  have "pconf (snd (run_steps ?A s0)) = pconf s0"
  proof (rule run_steps_frame)
    fix f s assume "f \<in> set ?A"
    then show "pconf (snd (f s)) = pconf s" by (auto simp: apply_frames)
  qed
  with A have p: "pconf sa = pconf s0" by simp
  have "consumed_topic (snd (run_steps ?B sb)) = consumed_topic sb"
  proof (rule run_steps_frame)
    fix f s assume "f \<in> set ?B"
    then show "consumed_topic (snd (f s)) = consumed_topic s" by (auto simp: apply_frames)
  qed
  with B have "consumed_topic s1 = consumed_topic sb" by simp
  with consumed_Continue [OF f] p show ?thesis by (auto split: if_splits)
qed

lemma apply_published:
  assumes "run_steps (configure_apply E) s0 = (Continue, s1)"
  shows "if optIsSet E CHR ''f'' then published_topic s1 = optString E CHR ''f''
         else pconf s0 ''privacy.topic.producer'' = Some (published_topic s1)"
proof -
  let ?A = "[configure_mapfile E, configure_broker E, configure_partition E,
             configure_confluent E, configure_group E, configure_offset E,
             configure_exit_debug E, configure_consumed_topic E]"
  let ?B = "[configure_timeout E]"
  from assms obtain sa sb where A: "run_steps ?A s0 = (Continue, sa)"
    and f: "configure_published_topic E sa = (Continue, sb)"
    and B: "run_steps ?B sb = (Continue, s1)"
    unfolding apply_splits(4) run_steps_Continue_mid by blast
  have "pconf (snd (run_steps ?A s0)) = pconf s0"
  proof (rule run_steps_frame)
    fix f s assume "f \<in> set ?A"
    then show "pconf (snd (f s)) = pconf s" by (auto simp: apply_frames)
  qed
  with A have p: "pconf sa = pconf s0" by simp
  have "published_topic (snd (run_steps ?B sb)) = published_topic sb"
  proof (rule run_steps_frame)
    fix f s assume "f \<in> set ?B"
    then show "published_topic (snd (f s)) = published_topic s" by (auto simp: apply_frames)
  qed
  with B have "published_topic s1 = published_topic sb" by simp
  with published_Continue [OF f] p show ?thesis by (auto split: if_splits)
qed

lemma configure_True_settings:
  assumes "configure E s = (Returns True, s')"
  shows "(if optIsSet E CHR ''u'' then consumed_topic s' = optString E CHR ''u''
          else file_setting E s ''privacy.topic.consumer'' = Some (consumed_topic s'))"
    and "(if optIsSet E CHR ''f'' then published_topic s' = optString E CHR ''f''
          else file_setting E s ''privacy.topic.producer'' = Some (published_topic s'))"
    and "(if optIsSet E CHR ''p'' then optInt E CHR ''p'' = Returns (partition s')
          else (case file_setting E s ''privacy.kafka.partition'' of
                  Some v \<Rightarrow> stoi v = Returns (partition s')
                | None \<Rightarrow> partition s' = partition s))"
    and "\<exists>m q. (if optIsSet E CHR ''m'' then m = optString E CHR ''m''
                else file_setting E s ''privacy.filter.geofence.mapfile'' = Some m)
          \<and> fst (BuildGeofence E (logger_info (''ppm mapfile: '' @ m)
                   (snd (run_steps (configure_read E) s))) m) = Returns q
          \<and> qptr s' = Some q"
proof -
  from assms obtain s0 s1 where r: "run_steps (configure_read E) s = (Continue, s0)"
    and a: "run_steps (configure_apply E) s0 = (Continue, s1)"
    and s': "s' = logger_trace ''ending configure()'' s1"
    unfolding configure_True by blast
  have fs: "file_setting E s k = pconf s0 k" for k
    by (simp add: file_setting_def r)
  have p0: "partition s0 = partition s"
    using read_partition [of E s] r by simp
  show "(if optIsSet E CHR ''u'' then consumed_topic s' = optString E CHR ''u''
          else file_setting E s ''privacy.topic.consumer'' = Some (consumed_topic s'))"
    using apply_consumed [OF a] by (simp add: s' fs logger_trace_def)
  show "(if optIsSet E CHR ''f'' then published_topic s' = optString E CHR ''f''
          else file_setting E s ''privacy.topic.producer'' = Some (published_topic s'))"
    using apply_published [OF a] by (simp add: s' fs logger_trace_def)
  show "(if optIsSet E CHR ''p'' then optInt E CHR ''p'' = Returns (partition s')
          else (case file_setting E s ''privacy.kafka.partition'' of
                  Some v \<Rightarrow> stoi v = Returns (partition s')
                | None \<Rightarrow> partition s' = partition s))"
    using apply_partition [OF a]
    by (auto simp: s' fs p0 logger_trace_def split: if_splits option.splits)
  show "\<exists>m q. (if optIsSet E CHR ''m'' then m = optString E CHR ''m''
                else file_setting E s ''privacy.filter.geofence.mapfile'' = Some m)
          \<and> fst (BuildGeofence E (logger_info (''ppm mapfile: '' @ m)
                   (snd (run_steps (configure_read E) s))) m) = Returns q
          \<and> qptr s' = Some q"
  proof -
    from apply_mapfile [OF a] obtain m q
      where "if optIsSet E CHR ''m'' then m = optString E CHR ''m''
             else pconf s0 ''privacy.filter.geofence.mapfile'' = Some m"
        and "fst (BuildGeofence E (logger_info (''ppm mapfile: '' @ m) s0) m) = Returns q"
        and "qptr s1 = Some q"
      by blast
    then show ?thesis
      by (intro exI [of _ m] exI [of _ q]) (simp add: s' fs r logger_trace_def)
  qed
qed

lemma configure_needs_settings:
  assumes "fst (configure E s) = Returns True"
  shows "(optIsSet E CHR ''m'' \<or> file_setting E s ''privacy.filter.geofence.mapfile'' \<noteq> None)
       \<and> (optIsSet E CHR ''u'' \<or> file_setting E s ''privacy.topic.consumer'' \<noteq> None)
       \<and> (optIsSet E CHR ''f'' \<or> file_setting E s ''privacy.topic.producer'' \<noteq> None)"
proof -
  from assms have c: "configure E s = (Returns True, snd (configure E s))"
    by (simp add: prod_eq_iff)
  from configure_True_settings(1) [OF c] configure_True_settings(2) [OF c]
       configure_True_settings(4) [OF c]
  show ?thesis by (auto split: if_splits)
qed

lemma read_fst:
  "fst (run_steps (configure_read E) s) = Continue
   \<or> fst (run_steps (configure_read E) s) = Return False"
  using configure_file_fst [of E "snd (configure_log_level E s)"]
  by (cases "configure_file E (snd (configure_log_level E s))";
      cases "fst (configure_file E (snd (configure_log_level E s)))")
     (simp_all add: configure_read_def configure_log_level_def)

lemma configure_without_mapfile:
  assumes "\<not> optIsSet E CHR ''m''"
    and "file_setting E s ''privacy.filter.geofence.mapfile'' = None"
  shows "fst (configure E s) = Returns False"
proof (cases "run_steps (configure_read E) s")
  case (Pair r s0)
  from read_fst [of E s] Pair consider "r = Continue" | "r = Return False" by auto
  then show ?thesis
  proof cases
    case 1
    with Pair assms(2) have "pconf s0 ''privacy.filter.geofence.mapfile'' = None"
      by (simp add: file_setting_def)
    with assms(1) have "configure_mapfile E s0
        = (Return False, logger_error ''no map file specified; must fail.'' s0)"
      by (simp add: configure_mapfile_def)
    with Pair 1 show ?thesis
      by (simp add: configure_def run_steps_append configure_apply_def finish_configure_def)
  next
    case 2
    with Pair show ?thesis
      by (simp add: configure_def run_steps_append finish_configure_def)
  qed
qed

lemma configure_Returns:
  assumes "fst (configure E s) = Returns b" and "fst (configure E s) \<noteq> Returns True"
  shows "\<not> b \<and> log (snd (configure E s)) \<noteq> []
         \<and> fst (last (log (snd (configure E s)))) = err_level"
  using assms configure_steps_return [of E s]
  by (cases "run_steps (configure_read E @ configure_apply E) s";
      cases "fst (run_steps (configure_read E @ configure_apply E) s)")
     (auto simp: configure_def finish_configure_def returns_with_error_def)

lemma operator_call_configure_fails:
  assumes "fst (configure E s) \<noteq> Returns True"
    and "fst (configure E s) \<noteq> Undefined_behaviour"
  shows "operator_call E s gs =
           Some (EXIT_FAILURE,
                 case fst (configure E s) of
                   Throws e \<Rightarrow> (snd (configure E s))
                       \<lparr>cerr := cerr (snd (configure E s)) @ [''Fatal std::Exception: '' @ what e]\<rparr>
                 | _ \<Rightarrow> snd (configure E s))"
proof (cases "configure E s")
  case (Pair r s1)
  with assms show ?thesis
    by (cases r) (auto simp: operator_call_def)
qed

subsection \<open>Where \<open>configure\<close> is undefined\<close>

lemma run_steps_undefined:
  assumes "\<And>f s. f \<in> set fs \<Longrightarrow> fst (f s) = Undefined_step \<longrightarrow> Q (snd (f s))"
  shows "fst (run_steps fs s) = Undefined_step \<longrightarrow> Q (snd (run_steps fs s))"
  using assms
proof (induction fs arbitrary: s)
  case Nil
  show ?case by simp
next
  case (Cons f fs)
  have h: "fst (f s) = Undefined_step \<longrightarrow> Q (snd (f s))" using Cons.prems by simp
  have ih: "\<And>t. fst (run_steps fs t) = Undefined_step \<longrightarrow> Q (snd (run_steps fs t))"
    using Cons.IH Cons.prems by simp
  show ?case
    using h ih by (cases "f s"; cases "fst (f s)") simp_all
qed

lemma stoi_defined: "stoi v \<noteq> Undefined_behaviour"
  by (simp add: stoi_def split: option.split)

lemma stod_setting_defined:
  "\<forall>v. stod E v \<noteq> Undefined_behaviour \<Longrightarrow> stod_setting E s k \<noteq> Undefined_behaviour"
  by (cases "pconf s k") (auto simp: stod_setting_def split: result.split)

lemma BuildGeofence_defined:
  assumes "\<forall>v. stod E v \<noteq> Undefined_behaviour"
    and "\<forall>f. make_shapes E f \<noteq> Undefined_behaviour"
  shows "fst (BuildGeofence E s m) \<noteq> Undefined_behaviour"
  using stod_setting_defined [OF assms(1)] assms(2)
  by (simp add: BuildGeofence_def Let_def case_prod_beta split: result.split)

lemma configure_mapfile_defined:
  assumes "\<forall>v. stod E v \<noteq> Undefined_behaviour"
    and "\<forall>f. make_shapes E f \<noteq> Undefined_behaviour"
  shows "fst (configure_mapfile E s) \<noteq> Undefined_step"
  using BuildGeofence_defined [OF assms]
  by (simp add: configure_mapfile_def case_prod_beta split: option.split result.split)

lemma partition_setting_defined:
  "optInt E CHR ''p'' \<noteq> Undefined_behaviour \<Longrightarrow> partition_setting E s \<noteq> Undefined_behaviour"
  using stoi_defined
  by (simp add: partition_setting_def split: result.split option.split)

lemma configure_partition_undefined:
  assumes "optInt E CHR ''p'' \<noteq> Undefined_behaviour"
    and "fst (configure_partition E s) = Undefined_step"
  shows "literal_plus ''kafka partition: '' (partition (snd (configure_partition E s))) = None"
proof (cases "partition_setting E s")
  case (Returns s1)
  with assms(2) show ?thesis
    by (cases "literal_plus ''kafka partition: '' (partition s1)")
       (simp_all add: configure_partition_def)
next
  case (Throws e)
  with assms(2) show ?thesis by (simp add: configure_partition_def)
next
  case Undefined_behaviour
  with partition_setting_defined [OF assms(1), of s] show ?thesis by simp
qed

lemma configure_other_defined:
  "fst (configure_log_level E s) \<noteq> Undefined_step"
  "fst (configure_file E s) \<noteq> Undefined_step"
  "fst (configure_broker E s) \<noteq> Undefined_step"
  "fst (configure_confluent E s) \<noteq> Undefined_step"
  "fst (configure_group E s) \<noteq> Undefined_step"
  "fst (configure_offset E s) \<noteq> Undefined_step"
  "fst (configure_exit_debug E s) \<noteq> Undefined_step"
  "fst (configure_consumed_topic E s) \<noteq> Undefined_step"
  "fst (configure_published_topic E s) \<noteq> Undefined_step"
  by (simp_all add: configure_log_level_def configure_file_def configure_broker_def
        configure_confluent_def configure_group_def configure_offset_def
        configure_exit_debug_def configure_consumed_topic_def configure_published_topic_def
        Let_def case_prod_beta split: option.split)

lemma configure_timeout_defined:
  "fst (configure_timeout E s) \<noteq> Undefined_step"
  using stoi_defined
  by (simp add: configure_timeout_def split: option.split result.split)

text \<open>
  With the library calls defined, \<open>configure\<close> is undefined only at line 366, with the
  partition it has just set outside 0 to 17.
\<close>

lemma configure_undefined:
  assumes "optInt E CHR ''p'' \<noteq> Undefined_behaviour"
    and "\<forall>v. stod E v \<noteq> Undefined_behaviour"
    and "\<forall>f. make_shapes E f \<noteq> Undefined_behaviour"
    and "fst (configure E s) = Undefined_behaviour"
  shows "\<not> (0 \<le> partition (snd (configure E s)) \<and> partition (snd (configure E s)) \<le> 17)"
proof -
  let ?Q = "\<lambda>t. literal_plus ''kafka partition: '' (partition t) = None"
  let ?r = "run_steps (configure_read E @ configure_apply E) s"
  have "fst ?r = Undefined_step \<longrightarrow> ?Q (snd ?r)"
  proof (rule run_steps_undefined)
    fix f s assume "f \<in> set (configure_read E @ configure_apply E)"
    then consider "f = configure_partition E" | "f = configure_mapfile E"
      | "f = configure_timeout E"
      | "f \<in> set [configure_log_level E, configure_file E, configure_broker E,
                   configure_confluent E, configure_group E, configure_offset E,
                   configure_exit_debug E, configure_consumed_topic E,
                   configure_published_topic E]"
      unfolding configure_read_def configure_apply_def by auto
    then show "fst (f s) = Undefined_step \<longrightarrow> ?Q (snd (f s))"
    proof cases
      case 1
      then show ?thesis using configure_partition_undefined [OF assms(1), of s] by simp
    next
      case 2
      then show ?thesis using configure_mapfile_defined [OF assms(2,3), of s] by simp
    next
      case 3
      then show ?thesis using configure_timeout_defined [of E s] by simp
    next
      case 4
      then show ?thesis by (auto simp: configure_other_defined)
    qed
  qed
  moreover have "fst ?r = Undefined_step" "snd (configure E s) = snd ?r"
    using assms(4)
    by (cases ?r; cases "fst ?r"; simp add: configure_def finish_configure_def)+
  ultimately have "?Q (snd (configure E s))" by simp
  then show ?thesis by (simp add: literal_plus_def split: if_splits)
qed

subsection \<open>The claims about the settings\<close>

text \<open>
  C5, the command line comes before the file. When \<open>configure\<close> returns true, each of the
  consumed topic, the published topic, the partition and the map file the geofence is built
  from is the value of its command-line option when the option is set, and the value the
  configuration file gives its key only when the option is not set (for the partition, the
  value it had when the file has none either). When the option is set, the value the file
  gives the key has no effect on what the blocks after the file loop do: with any other
  entry for the key they end the same way, in the same state but for that entry.
\<close>

theorem cli_overrides_config_file:
  "(configure E s = (Returns True, s') \<longrightarrow>
      (if optIsSet E CHR ''u'' then consumed_topic s' = optString E CHR ''u''
       else file_setting E s ''privacy.topic.consumer'' = Some (consumed_topic s'))
    \<and> (if optIsSet E CHR ''f'' then published_topic s' = optString E CHR ''f''
       else file_setting E s ''privacy.topic.producer'' = Some (published_topic s'))
    \<and> (if optIsSet E CHR ''p'' then optInt E CHR ''p'' = Returns (partition s')
       else (case file_setting E s ''privacy.kafka.partition'' of
               Some v \<Rightarrow> stoi v = Returns (partition s')
             | None \<Rightarrow> partition s' = partition s))
    \<and> (\<exists>m q. (if optIsSet E CHR ''m'' then m = optString E CHR ''m''
               else file_setting E s ''privacy.filter.geofence.mapfile'' = Some m)
          \<and> fst (BuildGeofence E (logger_info (''ppm mapfile: '' @ m)
                   (snd (run_steps (configure_read E) s))) m) = Returns q
          \<and> qptr s' = Some q))
   \<and> (\<forall>(c, k) \<in> set [(CHR ''m'', ''privacy.filter.geofence.mapfile''),
                       (CHR ''p'', ''privacy.kafka.partition''),
                       (CHR ''u'', ''privacy.topic.consumer''),
                       (CHR ''f'', ''privacy.topic.producer'')].
        optIsSet E c \<longrightarrow>
          run_steps (configure_apply E) (with_setting k v s0)
            = (fst (run_steps (configure_apply E) s0),
               with_setting k v (snd (run_steps (configure_apply E) s0))))"
proof -
  have a: "optIsSet E CHR ''m'' \<Longrightarrow>
          run_steps (configure_apply E) (with_setting ''privacy.filter.geofence.mapfile'' v s0)
            = (fst (run_steps (configure_apply E) s0),
               with_setting ''privacy.filter.geofence.mapfile'' v
                 (snd (run_steps (configure_apply E) s0)))"
    by (rule apply_with) simp_all
  have b: "optIsSet E CHR ''p'' \<Longrightarrow>
          run_steps (configure_apply E) (with_setting ''privacy.kafka.partition'' v s0)
            = (fst (run_steps (configure_apply E) s0),
               with_setting ''privacy.kafka.partition'' v
                 (snd (run_steps (configure_apply E) s0)))"
    by (rule apply_with) simp_all
  have c: "optIsSet E CHR ''u'' \<Longrightarrow>
          run_steps (configure_apply E) (with_setting ''privacy.topic.consumer'' v s0)
            = (fst (run_steps (configure_apply E) s0),
               with_setting ''privacy.topic.consumer'' v
                 (snd (run_steps (configure_apply E) s0)))"
    by (rule apply_with) simp_all
  have d: "optIsSet E CHR ''f'' \<Longrightarrow>
          run_steps (configure_apply E) (with_setting ''privacy.topic.producer'' v s0)
            = (fst (run_steps (configure_apply E) s0),
               with_setting ''privacy.topic.producer'' v
                 (snd (run_steps (configure_apply E) s0)))"
    by (rule apply_with) simp_all
  from a b c d
  have "\<forall>(c, k) \<in> set [(CHR ''m'', ''privacy.filter.geofence.mapfile''),
                       (CHR ''p'', ''privacy.kafka.partition''),
                       (CHR ''u'', ''privacy.topic.consumer''),
                       (CHR ''f'', ''privacy.topic.producer'')].
        optIsSet E c \<longrightarrow>
          run_steps (configure_apply E) (with_setting k v s0)
            = (fst (run_steps (configure_apply E) s0),
               with_setting k v (snd (run_steps (configure_apply E) s0)))"
    by simp
  with configure_True_settings [of E s s'] show ?thesis by blast
qed

theorem cli_overrides_config_file_witness:
  "configure (example_env example_file example_cli) (PPM info)
     = (Returns True, snd (configure (example_env example_file example_cli) (PPM info)))
   \<and> optIsSet (example_env example_file example_cli) CHR ''u''
   \<and> file_setting (example_env example_file example_cli) (PPM info) ''privacy.topic.consumer''
       = Some ''file.in''
   \<and> consumed_topic (snd (configure (example_env example_file example_cli) (PPM info)))
       = ''cli.in''
   \<and> \<not> optIsSet (example_env example_file example_cli) CHR ''f''
   \<and> file_setting (example_env example_file example_cli) (PPM info) ''privacy.topic.producer''
       = Some (published_topic (snd (configure (example_env example_file example_cli) (PPM info))))
   \<and> fst (run_steps (configure_apply (example_env example_file example_cli))
        (with_setting ''privacy.topic.consumer'' (Some ''other.in'') (PPM info)))
       = fst (run_steps (configure_apply (example_env example_file example_cli)) (PPM info))"
proof -
  have c: "fst (configure (example_env example_file example_cli) (PPM info)) = Returns True"
    by (simp add: configure_defs example_env_defs logger_defs Let_def)
  then have e: "configure (example_env example_file example_cli) (PPM info)
     = (Returns True, snd (configure (example_env example_file example_cli) (PPM info)))"
    by (simp add: prod_eq_iff)
  have f: "file_setting (example_env example_file example_cli) (PPM info)
             ''privacy.topic.consumer'' = Some ''file.in''"
    by (simp add: file_setting_def configure_defs example_env_defs logger_defs Let_def)
  have o: "optIsSet (example_env example_file example_cli) CHR ''u''"
          "\<not> optIsSet (example_env example_file example_cli) CHR ''f''"
          "optString (example_env example_file example_cli) CHR ''u'' = ''cli.in''"
    by (simp_all add: example_env_def example_cli_def)
  show ?thesis
    using e f o
      cli_overrides_config_file [of "example_env example_file example_cli" "PPM info"
        "snd (configure (example_env example_file example_cli) (PPM info))"
        "Some ''other.in''" "PPM info"]
    by simp
qed

text \<open>
  C6 as the claim states it fails: with a map file given, no consumer topic anywhere and a
  partition in the file that is not a number, \<open>configure\<close> does not return false; \<open>stoi\<close>
  throws on line 362, before the consumer topic is looked at.
\<close>

theorem missing_setting_is_fatal_counterexample:
  "\<not> optIsSet (example_env example_file_bad_partition example_cli_file_only) CHR ''u''
   \<and> file_setting (example_env example_file_bad_partition example_cli_file_only) (PPM info)
       ''privacy.topic.consumer'' = None
   \<and> fst (configure (example_env example_file_bad_partition example_cli_file_only) (PPM info))
       = Throws (invalid_argument ''stoi'')
   \<and> fst (configure (example_env example_file_bad_partition example_cli_file_only) (PPM info))
       \<noteq> Returns False"
proof -
  have a: "\<not> optIsSet (example_env example_file_bad_partition example_cli_file_only) CHR ''u''"
    by (simp add: example_env_def example_cli_file_only_def)
  have b: "file_setting (example_env example_file_bad_partition example_cli_file_only)
             (PPM info) ''privacy.topic.consumer'' = None"
    by (simp add: file_setting_def configure_defs example_env_defs
          example_file_bad_partition_def example_cli_file_only_def logger_defs Let_def)
  have c: "fst (configure (example_env example_file_bad_partition example_cli_file_only)
             (PPM info)) = Throws (invalid_argument ''stoi'')"
    by (simp add: configure_defs example_env_defs example_file_bad_partition_def
          example_cli_file_only_def logger_defs Let_def)
  from a b c show ?thesis by simp
qed

text \<open>
  C6 as amended, a missing required setting is fatal at startup. If neither the command
  line nor the configuration file supplies the map file, or the consumer topic, or the
  producer topic, then, as long as \<open>configure\<close> does not run into undefined behaviour,
  \<open>configure\<close> does not return true: it returns false, right
  after a call of \<open>logger->error\<close>, unless an exception leaves it first; either way the
  runner returns \<open>EXIT_FAILURE\<close>, which is 1, in the state \<open>configure\<close> left (with the line
  on standard error after an exception), whatever passes of the bootstrap loop the
  surroundings hold ready. When it is the map file that is missing, \<open>configure\<close> returns
  false and the runner returns 1, whatever the partition. With the library calls defined,
  \<open>configure\<close> runs into undefined behaviour only on line 366, with the partition it has
  just set outside 0 to 17; nothing is said of what the process does then.
\<close>

theorem missing_setting_is_fatal:
  assumes "(\<not> optIsSet E CHR ''m''
              \<and> file_setting E s ''privacy.filter.geofence.mapfile'' = None)
         \<or> (\<not> optIsSet E CHR ''u'' \<and> file_setting E s ''privacy.topic.consumer'' = None)
         \<or> (\<not> optIsSet E CHR ''f'' \<and> file_setting E s ''privacy.topic.producer'' = None)"
  shows "(fst (configure E s) \<noteq> Undefined_behaviour \<longrightarrow>
            fst (configure E s) \<noteq> Returns True
          \<and> (\<forall>b. fst (configure E s) = Returns b \<longrightarrow>
                \<not> b \<and> log (snd (configure E s)) \<noteq> []
                \<and> fst (last (log (snd (configure E s)))) = err_level)
          \<and> operator_call E s gs =
              Some (EXIT_FAILURE,
                    case fst (configure E s) of
                      Throws e \<Rightarrow> (snd (configure E s))
                          \<lparr>cerr := cerr (snd (configure E s))
                                    @ [''Fatal std::Exception: '' @ what e]\<rparr>
                    | _ \<Rightarrow> snd (configure E s)))
     \<and> EXIT_FAILURE = 1
     \<and> (\<not> optIsSet E CHR ''m'' \<and> file_setting E s ''privacy.filter.geofence.mapfile'' = None
          \<longrightarrow> fst (configure E s) = Returns False
              \<and> operator_call E s gs = Some (EXIT_FAILURE, snd (configure E s)))
     \<and> (fst (configure E s) = Undefined_behaviour
          \<and> optInt E CHR ''p'' \<noteq> Undefined_behaviour
          \<and> (\<forall>v. stod E v \<noteq> Undefined_behaviour)
          \<and> (\<forall>f. make_shapes E f \<noteq> Undefined_behaviour)
          \<longrightarrow> \<not> (0 \<le> partition (snd (configure E s))
                  \<and> partition (snd (configure E s)) \<le> 17))"
proof -
  have n: "fst (configure E s) \<noteq> Returns True"
    using assms configure_needs_settings [of E s] by auto
  have r: "\<forall>b. fst (configure E s) = Returns b \<longrightarrow>
           \<not> b \<and> log (snd (configure E s)) \<noteq> []
           \<and> fst (last (log (snd (configure E s)))) = err_level"
    using configure_Returns [OF _ n] by blast
  have o: "operator_call E s gs =
              Some (EXIT_FAILURE,
                    case fst (configure E s) of
                      Throws e \<Rightarrow> (snd (configure E s))
                          \<lparr>cerr := cerr (snd (configure E s))
                                    @ [''Fatal std::Exception: '' @ what e]\<rparr>
                    | _ \<Rightarrow> snd (configure E s))"
    if "fst (configure E s) \<noteq> Undefined_behaviour"
    using operator_call_configure_fails [OF n that, of gs] .
  have m: "fst (configure E s) = Returns False
           \<and> operator_call E s gs = Some (EXIT_FAILURE, snd (configure E s))"
    if "\<not> optIsSet E CHR ''m''" "file_setting E s ''privacy.filter.geofence.mapfile'' = None"
  proof -
    have f: "fst (configure E s) = Returns False"
      using that by (rule configure_without_mapfile)
    then have "fst (configure E s) \<noteq> Undefined_behaviour" by simp
    from o [OF this] f show ?thesis by simp
  qed
  have x: "EXIT_FAILURE = 1" by (simp add: EXIT_FAILURE_def)
  have u: "fst (configure E s) = Undefined_behaviour
          \<and> optInt E CHR ''p'' \<noteq> Undefined_behaviour
          \<and> (\<forall>v. stod E v \<noteq> Undefined_behaviour)
          \<and> (\<forall>f. make_shapes E f \<noteq> Undefined_behaviour)
          \<longrightarrow> \<not> (0 \<le> partition (snd (configure E s))
                  \<and> partition (snd (configure E s)) \<le> 17)"
    using configure_undefined [of E s] by blast
  from n r o m x u show ?thesis by blast
qed

theorem missing_setting_is_fatal_witness:
  "\<not> optIsSet (example_env example_file_no_consumer example_cli_file_only) CHR ''u''
   \<and> file_setting (example_env example_file_no_consumer example_cli_file_only) (PPM info)
       ''privacy.topic.consumer'' = None
   \<and> fst (configure (example_env example_file_no_consumer example_cli_file_only) (PPM info))
       \<noteq> Undefined_behaviour
   \<and> partition (snd (configure (example_env example_file_no_consumer example_cli_file_only)
        (PPM info))) = 0
   \<and> fst (configure (example_env example_file_no_consumer example_cli_file_only) (PPM info))
       = Returns False
   \<and> last (log (snd (configure (example_env example_file_no_consumer example_cli_file_only)
        (PPM info)))) = (err_level, ''no consumer topic was specified; must fail.'')
   \<and> operator_call (example_env example_file_no_consumer example_cli_file_only) (PPM info) []
       = Some (1, snd (configure (example_env example_file_no_consumer example_cli_file_only)
                        (PPM info)))
   \<and> file_setting (example_env example_file_no_partition example_cli_file_only) (PPM info)
       ''privacy.topic.consumer'' = None
   \<and> fst (configure (example_env example_file_no_partition example_cli_file_only) (PPM info))
       = Undefined_behaviour
   \<and> partition (snd (configure (example_env example_file_no_partition example_cli_file_only)
        (PPM info))) = - 1"
proof -
  have a: "\<not> optIsSet (example_env example_file_no_consumer example_cli_file_only) CHR ''u''"
    by (simp add: example_env_def example_cli_file_only_def)
  have b: "file_setting (example_env example_file_no_consumer example_cli_file_only)
             (PPM info) ''privacy.topic.consumer'' = None"
    by (simp add: file_setting_def configure_defs example_env_defs
          example_file_no_consumer_def example_cli_file_only_def logger_defs Let_def)
  have c: "fst (configure (example_env example_file_no_consumer example_cli_file_only)
             (PPM info)) = Returns False"
    by (simp add: configure_defs example_env_defs example_file_no_consumer_def
          example_cli_file_only_def logger_defs Let_def)
  have d: "last (log (snd (configure (example_env example_file_no_consumer
             example_cli_file_only) (PPM info))))
           = (err_level, ''no consumer topic was specified; must fail.'')"
    by (simp add: configure_defs example_env_defs example_file_no_consumer_def
          example_cli_file_only_def logger_defs Let_def)
  have e: "partition (snd (configure (example_env example_file_no_consumer
             example_cli_file_only) (PPM info))) = 0"
    by (simp add: configure_defs example_env_defs example_file_no_consumer_def
          example_cli_file_only_def logger_defs Let_def)
  have f: "file_setting (example_env example_file_no_partition example_cli_file_only)
             (PPM info) ''privacy.topic.consumer'' = None"
    by (simp add: file_setting_def configure_defs example_env_defs
          example_file_no_partition_def example_cli_file_only_def logger_defs Let_def)
  have g: "fst (configure (example_env example_file_no_partition example_cli_file_only)
             (PPM info)) = Undefined_behaviour"
    by (simp add: configure_defs example_env_defs example_file_no_partition_def
          example_cli_file_only_def logger_defs Let_def)
  have h: "partition (snd (configure (example_env example_file_no_partition
             example_cli_file_only) (PPM info))) = - 1"
    by (simp add: configure_defs example_env_defs example_file_no_partition_def
          example_cli_file_only_def logger_defs Let_def)
  have i: "\<not> optIsSet (example_env example_file_no_partition example_cli_file_only) CHR ''u''"
    by (simp add: example_env_def example_cli_file_only_def)
  show ?thesis
    using a b c d e f g h i
      missing_setting_is_fatal [of "example_env example_file_no_consumer example_cli_file_only"
        "PPM info" "[]"]
      missing_setting_is_fatal [of "example_env example_file_no_partition example_cli_file_only"
        "PPM info" "[]"]
    by simp
qed

subsection \<open>Shutdown\<close>

lemma sigterm_flags:
  "\<not> bootstrap (sigterm s) \<and> \<not> bsms_available (sigterm s)"
  by (simp add: sigterm_def)

lemma wait_for_topic_stopped:
  "\<not> bsms_available s \<Longrightarrow> wait_for_topic E sub s ps = Some (True, s)"
  by (cases ps) simp_all

lemma bootstrap_loop_stopped:
  "\<not> bootstrap s \<Longrightarrow> bootstrap_loop E s gs = Some s"
  by (cases gs) simp_all

lemma signal_ends_consume_produce_loop:
  assumes "bsms_available s" and "signal it"
  shows "consume_produce_loop E s (it # its) = Some (consume_produce_iteration E s it)
       \<and> \<not> bootstrap (consume_produce_iteration E s it)
       \<and> \<not> bsms_available (consume_produce_iteration E s it)"
proof -
  have "\<not> bsms_available (consume_produce_iteration E s it)"
    using assms(2) iteration_never_raises_flag [of E s it] by blast
  moreover have "\<not> bootstrap (consume_produce_iteration E s it)"
    using assms(2) by (simp add: iteration_bootstrap)
  ultimately show ?thesis
    using assms(1) by (simp add: consume_produce_loop_def run_stopped)
qed

lemma log_summary_lines:
  "log (log_summary s) = log s @
     [(info, ''PPM operations complete; shutting down...''),
      (info, ''PPM consumed  : '' @ to_string (bsm_recv_count s) @ '' BSMs and ''
               @ to_string (bsm_recv_bytes s) @ '' bytes''),
      (info, ''PPM published : '' @ to_string (bsm_send_count s) @ '' BSMs and ''
               @ to_string (bsm_send_bytes s) @ '' bytes''),
      (info, ''PPM suppressed: '' @ to_string (bsm_filt_count s) @ '' BSMs and ''
               @ to_string (bsm_filt_bytes s) @ '' bytes'')]"
  by (simp add: log_summary_def logger_info_def Let_def)

lemma operator_call_after_loops:
  assumes "fst (configure E s) = Returns True"
    and "bootstrap_loop E (snd (configure E s)) gs = Some s2"
  shows "operator_call E s gs = Some (EXIT_SUCCESS, log_summary s2) \<and> EXIT_SUCCESS = 0"
proof (cases "configure E s")
  case (Pair r s1)
  with assms show ?thesis
    by (simp add: operator_call_def EXIT_SUCCESS_def)
qed

text \<open>
  The orderly end: a signal during a pass of the consume-produce loop lets the pass finish,
  ends the loop and the bootstrap loop, and the runner logs the summary and returns 0.
\<close>

lemma graceful_shutdown:
  assumes "fst (configure E s) = Returns True"
    and "bootstrap (snd (configure E s))"
    and "bootstrap_iteration E (snd (configure E s)) g = Some s2"
    and "\<not> bootstrap s2"
  shows "operator_call E s (g # gs) = Some (0, log_summary s2)"
  using operator_call_after_loops [OF assms(1), of "g # gs" s2] assms(2,3,4)
  by (simp add: bootstrap_loop_stopped)

lemma timeouts_keep_running:
  assumes "bsms_available s"
    and "\<forall>it \<in> set its. err (consumed it) = ERR__TIMED_OUT \<and> \<not> signal it"
  shows "bsms_available (consume_produce_run E s its)"
  using assms
proof (induction its arbitrary: s)
  case Nil
  then show ?case by simp
next
  case (Cons it its)
  have "bsms_available (consume_produce_iteration E s it)"
    using Cons.prems by (simp add: iteration_timed_out)
  with Cons show ?case by simp
qed

lemma wait_for_topic_found:
  assumes "bsms_available s" and "metadata_err p = ERR_NO_ERROR"
    and "consumed_topic s \<in> set (metadata_topics p)" and "\<not> poll_signal p"
  shows "\<exists>s'. wait_for_topic E ERR_NO_ERROR s (p # ps) = Some (True, s')
           \<and> bsms_available s' \<and> producer s' = producer s
           \<and> consumed_topic s' = consumed_topic s"
  using assms by (simp add: topic_available_def logger_defs Let_def)

lemma launch_producer_created:
  assumes "producer s = None" and "producer_create g = Inr pname" and "topic_create g = None"
  shows "\<exists>s'. launch_producer s g = (True, s') \<and> bsms_available s' = bsms_available s"
  using assms by (simp add: launch_producer_def create_topic_def logger_defs)

text \<open>
  A signal between the test of line 787 and the assignment of line 789: the assignment
  raises \<open>bsms_available\<close> again; when the launch succeeds the consume-produce loop starts,
  and on a broker that has nothing to deliver it does not end.
\<close>

lemma signal_before_reset_general:
  assumes "bootstrap s" and "signal_before_reset g" and "\<not> signal_after_reset g"
    and "consumer s = None" and "consumer_create g = Inr cname"
    and "polls g = p # ps" and "metadata_err p = ERR_NO_ERROR"
    and "consumed_topic s \<in> set (metadata_topics p)" and "\<not> poll_signal p"
    and "subscribe_err g = ERR_NO_ERROR"
    and "producer s = None" and "producer_create g = Inr pname" and "topic_create g = None"
    and "\<not> signal_after_launch g"
    and "\<forall>it \<in> set (iterations g). err (consumed it) = ERR__TIMED_OUT \<and> \<not> signal it"
  shows "bootstrap_iteration E s g = None"
proof -
  let ?s1 = "(deliver True s)\<lparr>bsms_available := True\<rparr>"
  let ?s2 = "?s1\<lparr>consumer := Some cname\<rparr>"
  have "bsms_available ?s2" "consumed_topic ?s2 \<in> set (metadata_topics p)"
    using assms(8) by simp_all
  from wait_for_topic_found [OF this(1) assms(7) this(2) assms(9), of E ps]
  obtain sw where w: "wait_for_topic E ERR_NO_ERROR ?s2 (p # ps) = Some (True, sw)"
    and sw: "bsms_available sw" "producer sw = producer ?s2"
    by blast
  have c: "consumer ?s1 = None" using assms(4) by simp
  have lc: "launch_consumer E ?s1 g
          = Some (True, logger_info (''Consumer: '' @ cname @ '' created using topic: ''
                          @ consumed_topic sw @ ''.'') sw)"
    using assms(5,6,10) w c by (simp add: launch_consumer_def subscribe_consumer_def)
  let ?s3 = "logger_info (''Consumer: '' @ cname @ '' created using topic: ''
                          @ consumed_topic sw @ ''.'') sw"
  have s3: "bsms_available ?s3" "producer ?s3 = None"
    using sw assms(11) by (simp_all add: logger_defs)
  from launch_producer_created [OF s3(2) assms(12,13)]
  obtain s4 where lp: "launch_producer ?s3 g = (True, s4)" and s4: "bsms_available s4"
    using s3(1) by auto
  have "bsms_available (log_position E s4 g)"
    using s4 by (simp add: log_position_def logger_defs)
  then have "bsms_available (consume_produce_run E (log_position E s4 g) (iterations g))"
    using assms(15) by (rule timeouts_keep_running)
  then have "consume_produce_loop E (log_position E s4 g) (iterations g) = None"
    by (simp add: consume_produce_loop_def)
  then show ?thesis
    using assms(2,3,14) lc lp
    by (simp add: bootstrap_iteration_def Let_def deliver_def)
qed

lemma signal_in_first_pass_general:
  assumes "\<not> signal_before_reset g" and "\<not> signal_after_reset g"
    and "consumer s = None" and "consumer_create g = Inr cname"
    and "polls g = p # ps" and "metadata_err p = ERR_NO_ERROR"
    and "consumed_topic s \<in> set (metadata_topics p)" and "\<not> poll_signal p"
    and "subscribe_err g = ERR_NO_ERROR"
    and "producer s = None" and "producer_create g = Inr pname" and "topic_create g = None"
    and "\<not> signal_after_launch g"
    and "iterations g = it # its" and "signal it"
  shows "\<exists>s2. bootstrap_iteration E s g = Some s2 \<and> \<not> bootstrap s2"
proof -
  let ?s1 = "s\<lparr>bsms_available := True\<rparr>"
  let ?s2 = "?s1\<lparr>consumer := Some cname\<rparr>"
  have "bsms_available ?s2" "consumed_topic ?s2 \<in> set (metadata_topics p)"
    using assms(7) by simp_all
  from wait_for_topic_found [OF this(1) assms(6) this(2) assms(8), of E ps]
  obtain sw where w: "wait_for_topic E ERR_NO_ERROR ?s2 (p # ps) = Some (True, sw)"
    and sw: "bsms_available sw" "producer sw = producer ?s2"
    by blast
  have c: "consumer ?s1 = None" using assms(3) by simp
  let ?s3 = "logger_info (''Consumer: '' @ cname @ '' created using topic: ''
                          @ consumed_topic sw @ ''.'') sw"
  have lc: "launch_consumer E ?s1 g = Some (True, ?s3)"
    using assms(4,5,9) w c by (simp add: launch_consumer_def subscribe_consumer_def)
  have s3: "bsms_available ?s3" "producer ?s3 = None"
    using sw assms(10) by (simp_all add: logger_defs)
  from launch_producer_created [OF s3(2) assms(11,12)]
  obtain s4 where lp: "launch_producer ?s3 g = (True, s4)" and s4: "bsms_available s4"
    using s3(1) by auto
  let ?s5 = "log_position E s4 g"
  have s5: "bsms_available ?s5"
    using s4 by (simp add: log_position_def logger_defs)
  from signal_ends_consume_produce_loop [OF s5 assms(15), of E its]
  have l: "consume_produce_loop E ?s5 (iterations g) = Some (consume_produce_iteration E ?s5 it)"
    and f: "\<not> bootstrap (consume_produce_iteration E ?s5 it)"
    by (simp_all add: assms(14))
  have "bootstrap_iteration E s g = Some (consume_produce_iteration E ?s5 it)"
    using assms(1,2,13) lc lp l
    by (simp add: bootstrap_iteration_def Let_def deliver_def)
  with f show ?thesis by blast
qed

text \<open>
  C7 at the failing input. The runner is configured and its flags are up. A signal arrives
  after the test of line 787 and before line 789: the handler has put both flags down, and
  line 789 puts \<open>bsms_available\<close> up again. The launch succeeds, the broker delivers
  nothing, and for every number of polls the runner is still in its consume-produce loop:
  it has not logged the summary and has not returned. The same signal during a pass of the
  consume-produce loop ends the run with status 0.
\<close>

theorem signal_before_reset_is_lost:
  "fst (configure (example_env example_file example_cli) (PPM info)) = Returns True
   \<and> bootstrap (snd (configure (example_env example_file example_cli) (PPM info)))
   \<and> \<not> bootstrap (deliver (signal_before_reset (example_generation True []))
         (snd (configure (example_env example_file example_cli) (PPM info))))
   \<and> \<not> bsms_available (deliver (signal_before_reset (example_generation True []))
         (snd (configure (example_env example_file example_cli) (PPM info))))
   \<and> (\<forall>n. operator_call (example_env example_file example_cli) (PPM info)
          [example_generation True
             (replicate n (example_iteration ERR__TIMED_OUT [] ERR_NO_ERROR))] = None)
   \<and> map_option fst (operator_call (example_env example_file example_cli) (PPM info)
          [example_generation False
             [(example_iteration ERR__TIMED_OUT [] ERR_NO_ERROR)\<lparr>signal := True\<rparr>]]) = Some 0"
proof -
  let ?E = "example_env example_file example_cli"
  let ?s1 = "snd (configure ?E (PPM info))"
  have c: "fst (configure ?E (PPM info)) = Returns True"
    by (simp add: configure_defs example_env_defs logger_defs Let_def)
  have b: "bootstrap ?s1" "bsms_available ?s1"
    by (simp_all add: configure_defs example_env_defs logger_defs Let_def)
  have k: "consumer ?s1 = None" "producer ?s1 = None"
    by (simp_all add: configure_defs example_env_defs logger_defs Let_def)
  have t: "consumed_topic ?s1 = ''cli.in''"
    by (simp add: configure_defs example_env_defs logger_defs Let_def)
  have d: "\<not> bootstrap (deliver (signal_before_reset (example_generation True [])) ?s1)"
          "\<not> bsms_available (deliver (signal_before_reset (example_generation True [])) ?s1)"
    by (simp_all add: example_generation_def)
  have lost: "operator_call ?E (PPM info)
          [example_generation True
             (replicate n (example_iteration ERR__TIMED_OUT [] ERR_NO_ERROR))] = None" for n
  proof -
    let ?g = "example_generation True
                (replicate n (example_iteration ERR__TIMED_OUT [] ERR_NO_ERROR))"
    have "bootstrap_iteration ?E ?s1 ?g = None"
      by (rule signal_before_reset_general [where cname = "''rdkafka#consumer-1''"
              and pname = "''rdkafka#producer-2''"
              and p = "\<lparr> metadata_err = ERR_NO_ERROR, metadata_topics = [''other'', ''cli.in''],
                         poll_signal = False \<rparr>" and ps = "[]"])
         (simp_all add: b k t example_generation_def example_defs)
    then have "bootstrap_loop ?E ?s1 [?g] = None"
      using b(1) by simp
    then show ?thesis
      using c by (cases "configure ?E (PPM info)") (simp add: operator_call_def)
  qed
  have graceful: "map_option fst (operator_call ?E (PPM info)
          [example_generation False
             [(example_iteration ERR__TIMED_OUT [] ERR_NO_ERROR)\<lparr>signal := True\<rparr>]]) = Some 0"
  proof -
    let ?it = "(example_iteration ERR__TIMED_OUT [] ERR_NO_ERROR)\<lparr>signal := True\<rparr>"
    let ?g = "example_generation False [?it]"
    have "\<exists>s2. bootstrap_iteration ?E ?s1 ?g = Some s2 \<and> \<not> bootstrap s2"
      by (rule signal_in_first_pass_general [where cname = "''rdkafka#consumer-1''"
              and pname = "''rdkafka#producer-2''"
              and p = "\<lparr> metadata_err = ERR_NO_ERROR, metadata_topics = [''other'', ''cli.in''],
                         poll_signal = False \<rparr>" and ps = "[]" and it = ?it and its = "[]"])
         (simp_all add: k t example_generation_def)
    then obtain s2 where "bootstrap_iteration ?E ?s1 ?g = Some s2" and "\<not> bootstrap s2"
      by blast
    from graceful_shutdown [OF c b(1) this, of "[]"] show ?thesis by simp
  qed
  from c b(1) d lost graceful show ?thesis by blast
qed

end
